theory Spec2Isabelle
  imports Main
begin

section \<open>Data model of the verification transaction (crypto/verification/Base)\<close>

text \<open>
  A protocol event as the transaction reads it: \<open>e.getType()\<close>, \<open>e.getSender()\<close> and
  \<open>e.getContent()\<close>. Of the content only the fields the base class touches are kept
  (\<open>code\<close>, \<open>reason\<close>, \<open>body\<close>); a missing field is \<open>None\<close>.
\<close>

datatype content = Content (code: "string option") (reason: "string option") (body: "string option")

datatype event = Event (getType: string) (getSender: "string option") (getContent: content)

text \<open>
  The values that travel as a cancellation cause, a rejection reason or a thrown
  exception. \<open>TimeoutException\<close> is the module-level sentinel \<open>timeoutException\<close>, which
  \<open>cancel\<close> recognises by identity (\<open>e === timeoutException\<close>); any other
  \<open>new Error(msg)\<close> is \<open>Error msg\<close>.
\<close>

datatype cause =
    TimeoutException
  | MatrixEvent event
  | Error string
  | SwitchStartEventError event
  | TypeError string

text \<open>A promise is pending, fulfilled with a value, or rejected with a cause.\<close>

datatype settlement = Pending | Fulfilled "event option" | Rejected cause

text \<open>What the transaction does to its collaborators, in the order it does it.\<close>

datatype effect =
    ChannelSend string content
  | Emit string cause
  | OnVerifierFinished
  | DoVerification
  | RequestCrossSigningKeys "string option"

text \<open>
  The fields of a \<open>VerificationBase\<close> object. \<open>done_flag\<close> is the field \<open>_done\<close>; the
  other underscore fields keep their names without the underscore. A promise is named by
  its index in \<open>promises\<close>, the store of all promises the object has created; the
  callbacks \<open>_resolveEvent\<close>, \<open>_rejectEvent\<close>, \<open>_resolve\<close> and \<open>_reject\<close> are
  represented by the promise they settle (\<open>None\<close> is \<open>undefined\<close>). \<open>request\<close> tells
  whether a request object was passed to the constructor. \<open>timeouts\<close> counts the calls
  of \<open>setTimeout\<close>, and is the handle of the next timer. \<open>trace\<close> is the list of effects
  so far.
\<close>

record verification =
  userId :: "string option"
  deviceId :: "string option"
  startEvent :: "event option"
  request :: bool
  cancelled :: bool
  done_flag :: bool
  promise :: "nat option"
  transactionTimeoutTimer :: "nat option"
  expectedEvent :: "string option"
  resolveEvent :: "nat option"
  rejectEvent :: "nat option"
  resolve :: "nat option"
  reject :: "nat option"
  started :: bool
  promises :: "settlement list"
  timeouts :: nat
  trace :: "effect list"

text \<open>
  What a subclass and the imported modules supply: the predicate \<open>canSwitchStartEvent\<close>
  (the base class answers false), whether a \<open>_doVerification\<close> hook exists, the local
  user id \<open>this._baseApis.getUserId()\<close>, and the event built by \<open>newTimeoutError()\<close>
  of the module \<open>./Error\<close>, whose source is not part of this development.
\<close>

record env =
  canSwitchStartEvent :: "event \<Rightarrow> bool"
  doVerification :: bool
  getUserId :: "string option"
  newTimeoutError :: event

definition new_verification ::
  "string option \<Rightarrow> string option \<Rightarrow> event option \<Rightarrow> bool \<Rightarrow> verification" where
  "new_verification uid did start req =
     \<lparr>userId = uid, deviceId = did, startEvent = start, request = req,
      cancelled = False, done_flag = False, promise = None,
      transactionTimeoutTimer = None, expectedEvent = None,
      resolveEvent = None, rejectEvent = None, resolve = None, reject = None,
      started = False, promises = [], timeouts = 0, trace = []\<rparr>"

text \<open>JavaScript truthiness of an optional string: defined and not empty.\<close>

fun truthy :: "string option \<Rightarrow> bool" where
  "truthy None = False"
| "truthy (Some s) = (s \<noteq> [])"

text \<open>\<open>a || b\<close> on an optional string and a default.\<close>

definition orElse :: "string option \<Rightarrow> string \<Rightarrow> string" where
  "orElse a b = (case a of Some s \<Rightarrow> (if s = [] then b else s) | None \<Rightarrow> b)"

text \<open>A value inside a template literal: \<open>undefined\<close> prints as its name.\<close>

definition template :: "string option \<Rightarrow> string" where
  "template a = (case a of Some s \<Rightarrow> s | None \<Rightarrow> ''undefined'')"

text \<open>\<open>e.toString()\<close> of an error object: the name, then the message when there is one.\<close>

fun toString :: "cause \<Rightarrow> string" where
  "toString (Error m) = (if m = [] then ''Error'' else ''Error: '' @ m)"
| "toString (TypeError m) = (if m = [] then ''TypeError'' else ''TypeError: '' @ m)"
| "toString (SwitchStartEventError ev) = ''Error''"
| "toString TimeoutException = ''Error: Verification timed out''"
| "toString (MatrixEvent ev) = ''[object Object]''"

section \<open>Promises and timers\<close>

text \<open>Settling a promise that is not pending does nothing, as in JavaScript.\<close>

definition settle :: "nat \<Rightarrow> settlement \<Rightarrow> verification \<Rightarrow> verification" where
  "settle p v s =
     (if p < length (promises s) \<and> promises s ! p = Pending
      then s\<lparr>promises := (promises s)[p := v]\<rparr> else s)"

definition newPromise :: "settlement \<Rightarrow> verification \<Rightarrow> nat \<times> verification" where
  "newPromise v s = (length (promises s), s\<lparr>promises := promises s @ [v]\<rparr>)"

definition resetTimer :: "verification \<Rightarrow> verification" where
  "resetTimer s =
     s\<lparr>transactionTimeoutTimer := Some (timeouts s), timeouts := Suc (timeouts s)\<rparr>"

definition endTimer :: "verification \<Rightarrow> verification" where
  "endTimer s = s\<lparr>transactionTimeoutTimer := None\<rparr>"

definition send :: "string \<Rightarrow> content \<Rightarrow> verification \<Rightarrow> verification" where
  "send t c s = s\<lparr>trace := trace s @ [ChannelSend t c]\<rparr>"

definition emit :: "string \<Rightarrow> cause \<Rightarrow> verification \<Rightarrow> verification" where
  "emit name e s = s\<lparr>trace := trace s @ [Emit name e]\<rparr>"

text \<open>
  The closures \<open>_resolve\<close> and \<open>_reject\<close> that \<open>verify\<close> builds: set \<open>_done\<close>, end
  the timer, settle the promise.
\<close>

definition call_resolve :: "nat \<Rightarrow> verification \<Rightarrow> verification" where
  "call_resolve p s = settle p (Fulfilled None) (endTimer (s\<lparr>done_flag := True\<rparr>))"

definition call_reject :: "nat \<Rightarrow> cause \<Rightarrow> verification \<Rightarrow> verification" where
  "call_reject p e s = settle p (Rejected e) (endTimer (s\<lparr>done_flag := True\<rparr>))"

section \<open>The operations\<close>

definition waitForEvent :: "string \<Rightarrow> verification \<Rightarrow> nat \<times> verification" where
  "waitForEvent type s =
     (if done_flag s then newPromise (Rejected (Error ''Verification is already done'')) s
      else
        let p = length (promises s) in
        (p, s\<lparr>expectedEvent := Some type, resolveEvent := Some p, rejectEvent := Some p,
              promises := promises s @ [Pending]\<rparr>))"

definition switchStartEvent :: "env \<Rightarrow> event \<Rightarrow> verification \<Rightarrow> verification" where
  "switchStartEvent env ev s =
     (if canSwitchStartEvent env ev then
        (case rejectEvent s of
           Some w \<Rightarrow> settle w (Rejected (SwitchStartEventError ev)) (s\<lparr>rejectEvent := None\<rparr>)
         | None \<Rightarrow> s\<lparr>startEvent := Some ev\<rparr>)
      else s)"

text \<open>
  The content that \<open>cancel\<close> forwards for a cancellation event of another sender:
  \<open>content.code = content.code || "m.unknown"\<close> and
  \<open>content.reason = content.reason || content.body || "Unknown reason"\<close>.
\<close>

definition filled :: "content \<Rightarrow> content" where
  "filled c =
     Content (Some (orElse (code c) ''m.unknown''))
             (Some (orElse (reason c) (orElse (body c) ''Unknown reason'')))
             (body c)"

text \<open>
  The message \<open>cancel\<close> sends inside \<open>if (this.userId && this.deviceId)\<close>, if any: the
  timeout event for the sentinel; for an event of another sender its own cancellation
  with defaults filled in, or a generic one carrying its body; for any other cause a
  generic cancellation carrying the cause's string form.
\<close>

definition cancel_message :: "env \<Rightarrow> cause \<Rightarrow> verification \<Rightarrow> (string \<times> content) option" where
  "cancel_message env e s =
     (case e of
        TimeoutException \<Rightarrow>
          Some (getType (newTimeoutError env), getContent (newTimeoutError env))
      | MatrixEvent ev \<Rightarrow>
          (if getSender ev \<noteq> userId s then
             (let c = getContent ev in
              if getType ev = ''m.key.verification.cancel'' then
                Some (''m.key.verification.cancel'', filled c)
              else
                Some (''m.key.verification.cancel'',
                      Content (Some ''m.unknown'')
                              (Some (orElse (body c) ''Unknown reason'')) None))
           else None)
      | _ \<Rightarrow>
          Some (''m.key.verification.cancel'',
                Content (Some ''m.unknown'') (Some (toString e)) None))"

text \<open>
  The cause after that block. The defaults of a forwarded cancellation are written into
  the content object of the event itself, so the event that \<open>cancel\<close> then rejects
  the promise with and emits carries the filled content; every other cause is left as
  it is.
\<close>

definition cancel_cause :: "cause \<Rightarrow> verification \<Rightarrow> cause" where
  "cancel_cause e s =
     (case e of
        MatrixEvent ev \<Rightarrow>
          (if getSender ev \<noteq> userId s \<and> getType ev = ''m.key.verification.cancel''
           then MatrixEvent (Event (getType ev) (getSender ev) (filled (getContent ev)))
           else e)
      | _ \<Rightarrow> e)"

definition cancel :: "env \<Rightarrow> cause \<Rightarrow> verification \<Rightarrow> verification" where
  "cancel env e s =
     (let s1 = endTimer s in
      if done_flag s1 then s1
      else
        let s2 = s1\<lparr>cancelled := True\<rparr>;
            known = (truthy (userId s2) \<and> truthy (deviceId s2));
            s3 = (if known then
                    (case cancel_message env e s2 of
                       Some (t, c) \<Rightarrow> send t c s2
                     | None \<Rightarrow> s2)
                  else s2);
            e' = (if known then cancel_cause e s2 else e);
            s4 = (case promise s3 of
                    Some q \<Rightarrow>
                      (case reject s3 of Some p \<Rightarrow> call_reject p e' s3 | None \<Rightarrow> s3)
                  | None \<Rightarrow>
                      (let (p, s') = newPromise (Rejected e') s3 in s'\<lparr>promise := Some p\<rparr>))
        in emit ''cancel'' e' s4)"

text \<open>
  \<open>handleEvent\<close> returns the exception it throws, if any, and the object as it is
  then. The only throw is the call of \<open>this._resolveEvent\<close> when that field is
  undefined.
\<close>

definition handleEvent :: "env \<Rightarrow> event \<Rightarrow> verification \<Rightarrow> cause option \<times> verification" where
  "handleEvent env e s =
     (if done_flag s then (None, s)
      else if Some (getType e) = expectedEvent s then
        (if expectedEvent s \<noteq> Some ''m.key.verification.done'' then
           (let s1 = resetTimer (s\<lparr>expectedEvent := None, rejectEvent := None\<rparr>) in
            case resolveEvent s1 of
              Some w \<Rightarrow> (None, settle w (Fulfilled (Some e)) s1)
            | None \<Rightarrow> (Some (TypeError ''this._resolveEvent is not a function''), s1))
         else (None, s))
      else if getType e = ''m.key.verification.cancel'' then
        (case reject s of
           Some p \<Rightarrow>
             (let c = getContent e in
              (None, call_reject p
                 (Error (''Other side cancelled verification because ''
                         @ template (reason c) @ '' ('' @ template (code c) @ '')''))
                 (s\<lparr>reject := None\<rparr>)))
         | None \<Rightarrow> (None, s))
      else if truthy (expectedEvent s) then
        (let exception = Error (''Unexpected message: expecting '' @ template (expectedEvent s)
                                @ '' but got '' @ getType e);
             s1 = s\<lparr>expectedEvent := None\<rparr>;
             s2 = (case rejectEvent s1 of
                     Some w \<Rightarrow> settle w (Rejected exception) (s1\<lparr>rejectEvent := None\<rparr>)
                   | None \<Rightarrow> s1)
         in (None, cancel env exception s2))
      else (None, s))"

text \<open>
  \<open>done()\<close>. It throws when no request object was given, or when \<open>_resolve\<close> is
  undefined because \<open>verify\<close> was never called. Of the request for the cross-signing
  keys after a self-verification only the fact that it is started is kept.
\<close>

definition done_transaction :: "env \<Rightarrow> verification \<Rightarrow> cause option \<times> verification" where
  "done_transaction env s =
     (let s1 = endTimer s in
      if done_flag s1 then (None, s1)
      else if \<not> request s1 then
        (Some (TypeError ''Cannot read property onVerifierFinished of undefined''), s1)
      else
        let s2 = s1\<lparr>trace := trace s1 @ [OnVerifierFinished]\<rparr> in
        case resolve s2 of
          None \<Rightarrow> (Some (TypeError ''this._resolve is not a function''), s2)
        | Some p \<Rightarrow>
            (let s3 = call_resolve p s2 in
             if getUserId env \<noteq> userId s3 then (None, s3)
             else (None, s3\<lparr>trace := trace s3 @ [RequestCrossSigningKeys (deviceId s3)]\<rparr>)))"

definition verify :: "env \<Rightarrow> verification \<Rightarrow> nat \<times> verification" where
  "verify env s =
     (case promise s of
        Some p \<Rightarrow> (p, s)
      | None \<Rightarrow>
          (let p = length (promises s);
               s1 = s\<lparr>promise := Some p, resolve := Some p, reject := Some p,
                      promises := promises s @ [Pending]\<rparr>;
               s2 = (if doVerification env \<and> \<not> started s1 then
                       (let s' = resetTimer (s1\<lparr>started := True\<rparr>)
                        in s'\<lparr>trace := trace s' @ [DoVerification]\<rparr>)
                     else s1)
           in (p, s2)))"

text \<open>The callback that \<open>_resetTimer\<close> schedules, when it runs after ten minutes.\<close>

definition timeoutCallback :: "env \<Rightarrow> verification \<Rightarrow> verification" where
  "timeoutCallback env s =
     (if \<not> done_flag s \<and> \<not> cancelled s then cancel env TimeoutException s else s)"

section \<open>Sequences of calls\<close>

text \<open>
  The calls a transaction receives from the application, the channel, the verification
  method and the timer, and the object after a sequence of them. A call that throws
  leaves the object as it was at the throw.
\<close>

datatype operation =
    WaitForEvent string
  | SwitchStartEvent event
  | HandleEvent event
  | Verify
  | Done
  | Cancel cause
  | TimeoutFires

fun step :: "env \<Rightarrow> operation \<Rightarrow> verification \<Rightarrow> verification" where
  "step env (WaitForEvent t) s = snd (waitForEvent t s)"
| "step env (SwitchStartEvent ev) s = switchStartEvent env ev s"
| "step env (HandleEvent ev) s = snd (handleEvent env ev s)"
| "step env Verify s = snd (verify env s)"
| "step env Done s = snd (done_transaction env s)"
| "step env (Cancel e) s = cancel env e s"
| "step env TimeoutFires s = timeoutCallback env s"

fun run :: "env \<Rightarrow> operation list \<Rightarrow> verification \<Rightarrow> verification" where
  "run env [] s = s"
| "run env (x # xs) s = run env xs (step env x s)"

text \<open>
  The consistency of the waiter fields that the operations keep: a live
  \<open>_rejectEvent\<close> comes with an expectation, and an expectation with a
  \<open>_resolveEvent\<close>.
\<close>

definition waiter_consistent :: "verification \<Rightarrow> bool" where
  "waiter_consistent s =
     ((rejectEvent s = None \<or> expectedEvent s \<noteq> None) \<and>
      (expectedEvent s = None \<or> resolveEvent s \<noteq> None))"

text \<open>
  The consistency of the promise handles: every handle names a promise of the store,
  the waiter handles are not the handles of the \<open>verify()\<close> promise, a live
  \<open>_rejectEvent\<close> names a pending promise, and so does \<open>_reject\<close> as long as the
  transaction is not done.
\<close>

definition handles_wf :: "verification \<Rightarrow> bool" where
  "handles_wf s =
     ((case rejectEvent s of None \<Rightarrow> True
       | Some w \<Rightarrow> w < length (promises s) \<and> promises s ! w = Pending
                   \<and> reject s \<noteq> Some w \<and> resolve s \<noteq> Some w) \<and>
      (case resolveEvent s of None \<Rightarrow> True
       | Some w \<Rightarrow> w < length (promises s) \<and> reject s \<noteq> Some w \<and> resolve s \<noteq> Some w) \<and>
      (case reject s of None \<Rightarrow> True
       | Some p \<Rightarrow> p < length (promises s) \<and> (done_flag s \<or> promises s ! p = Pending)) \<and>
      (case resolve s of None \<Rightarrow> True | Some p \<Rightarrow> p < length (promises s)))"

text \<open>
  \<open>_waitForEvent\<close> has no caller in the base class: it is the suspension point of the
  \<open>_doVerification\<close> hook, which only \<open>verify()\<close> starts, setting \<open>_started\<close>. A
  sequence of calls keeps to that when each of its \<open>_waitForEvent\<close> calls finds
  \<open>_started\<close> set.
\<close>

fun waits_in_hook :: "env \<Rightarrow> operation list \<Rightarrow> verification \<Rightarrow> bool" where
  "waits_in_hook env [] s = True"
| "waits_in_hook env (x # xs) s =
     ((case x of WaitForEvent t \<Rightarrow> started s | _ \<Rightarrow> True)
      \<and> waits_in_hook env xs (step env x s))"

text \<open>
  What such sequences keep: \<open>_reject\<close> comes with a promise; a started transaction has
  a live \<open>_reject\<close> or is done; an expectation is set only on a started transaction;
  and a transaction that is cancelled and not done has a promise and no \<open>_reject\<close>.
\<close>

definition hook_inv :: "verification \<Rightarrow> bool" where
  "hook_inv s =
     ((reject s = None \<or> promise s \<noteq> None) \<and>
      (\<not> started s \<or> reject s \<noteq> None \<or> done_flag s) \<and>
      (expectedEvent s = None \<or> started s) \<and>
      (\<not> cancelled s \<or> done_flag s \<or> (reject s = None \<and> promise s \<noteq> None)))"

section \<open>Batch key verification\<close>

text \<open>
  A device as the verifier callback sees it: a stored device, or the one that
  \<open>DeviceInfo.fromStorage({keys: {[keyId]: deviceId}}, deviceId)\<close> builds for the
  cross-signing identity.
\<close>

datatype deviceinfo = DeviceInfo (device_keys: "(string \<times> string option) list") (device_id: "string option")

text \<open>
  The collaborators of \<open>_verifyKeys\<close>: the device lookup (a missing device is
  \<open>None\<close>), the stored cross-signing identity of a user (\<open>None\<close> when there is none,
  otherwise its \<open>getId()\<close>, a string or null), and \<open>setDeviceVerified\<close>, which like the
  verifier callback returns the error it fails with, if any. The two lookups are taken
  to answer without failing.
\<close>

record keys_env =
  getStoredDevice :: "string \<Rightarrow> string option \<Rightarrow> deviceinfo option"
  getStoredCrossSigningForUser :: "string \<Rightarrow> string option option"
  setDeviceVerified :: "string \<Rightarrow> string option \<Rightarrow> cause option"

type_synonym verifier = "string \<Rightarrow> deviceinfo \<Rightarrow> string \<Rightarrow> cause option"

datatype key_effect =
    VerifierCalled string deviceinfo string
  | LoggerWarn "string option"
  | DeviceVerified string "string option"

text \<open>\<open>keyId.split(':', 2)[1]\<close>: the text between the first and the second colon.\<close>

definition deviceIdOf :: "string \<Rightarrow> string option" where
  "deviceIdOf keyId =
     (if CHR '':'' \<in> set keyId
      then Some (takeWhile (\<lambda>c. c \<noteq> CHR '':'') (tl (dropWhile (\<lambda>c. c \<noteq> CHR '':'') keyId)))
      else None)"

text \<open>
  The device a key identifier resolves to, if any: the stored device, else the device
  synthesised for the cross-signing identity when \<open>getId() === deviceId\<close>.
\<close>

definition resolveDevice :: "keys_env \<Rightarrow> string \<Rightarrow> string \<Rightarrow> deviceinfo option" where
  "resolveDevice kenv uid keyId =
     (let deviceId = deviceIdOf keyId in
      case getStoredDevice kenv uid deviceId of
        Some device \<Rightarrow> Some device
      | None \<Rightarrow>
          (case getStoredCrossSigningForUser kenv uid of
             Some (Some i) \<Rightarrow>
               (if Some i = deviceId then Some (DeviceInfo [(keyId, deviceId)] deviceId)
                else None)
           | _ \<Rightarrow> None))"

text \<open>
  The first loop: the list of verified device ids and the effects so far are threaded
  through; a verifier that fails ends the loop with its error.
\<close>

fun verifyEntries ::
  "keys_env \<Rightarrow> verifier \<Rightarrow> string \<Rightarrow> (string \<times> string) list \<Rightarrow>
   string option list \<times> key_effect list \<Rightarrow> cause option \<times> string option list \<times> key_effect list" where
  "verifyEntries kenv verifier uid [] (devs, effs) = (None, devs, effs)"
| "verifyEntries kenv verifier uid ((keyId, keyInfo) # rest) (devs, effs) =
     (case resolveDevice kenv uid keyId of
        Some device \<Rightarrow>
          (case verifier keyId device keyInfo of
             Some err \<Rightarrow> (Some err, devs, effs @ [VerifierCalled keyId device keyInfo])
           | None \<Rightarrow>
               verifyEntries kenv verifier uid rest
                 (devs @ [deviceIdOf keyId], effs @ [VerifierCalled keyId device keyInfo]))
      | None \<Rightarrow>
          verifyEntries kenv verifier uid rest (devs, effs @ [LoggerWarn (deviceIdOf keyId)]))"

text \<open>The second loop: one \<open>setDeviceVerified\<close> call per recorded device id, in order.\<close>

fun markVerified ::
  "keys_env \<Rightarrow> string \<Rightarrow> string option list \<Rightarrow> key_effect list \<Rightarrow> cause option \<times> key_effect list" where
  "markVerified kenv uid [] effs = (None, effs)"
| "markVerified kenv uid (d # ds) effs =
     (case setDeviceVerified kenv uid d of
        Some err \<Rightarrow> (Some err, effs)
      | None \<Rightarrow> markVerified kenv uid ds (effs @ [DeviceVerified uid d]))"

definition verifyKeys ::
  "keys_env \<Rightarrow> string \<Rightarrow> (string \<times> string) list \<Rightarrow> verifier \<Rightarrow> cause option \<times> key_effect list" where
  "verifyKeys kenv uid keys verifier =
     (case verifyEntries kenv verifier uid keys ([], []) of
        (Some err, devs, effs) \<Rightarrow> (Some err, effs)
      | (None, devs, effs) \<Rightarrow>
          (if devs = [] then (Some (Error ''No devices could be verified''), effs)
           else markVerified kenv uid devs effs))"

section \<open>Measures and examples used by the theorems\<close>

text \<open>
  The number of times the \<open>_doVerification\<close> hook has been started.
\<close>

definition hooks :: "verification \<Rightarrow> nat" where
  "hooks s = length (filter (\<lambda>x. x = DoVerification) (trace s))"

text \<open>
  What the first loop of \<open>_verifyKeys\<close> does for one entry when the verifier
  accepts, and the device ids it records over a list of entries.
\<close>

definition entryEffect :: "keys_env \<Rightarrow> string \<Rightarrow> string \<times> string \<Rightarrow> key_effect" where
  "entryEffect kenv uid entry =
     (case resolveDevice kenv uid (fst entry) of
        Some device \<Rightarrow> VerifierCalled (fst entry) device (snd entry)
      | None \<Rightarrow> LoggerWarn (deviceIdOf (fst entry)))"

definition recorded :: "keys_env \<Rightarrow> string \<Rightarrow> (string \<times> string) list \<Rightarrow> string option list" where
  "recorded kenv uid keys =
     map (\<lambda>entry. deviceIdOf (fst entry))
       (filter (\<lambda>entry. resolveDevice kenv uid (fst entry) \<noteq> None) keys)"

text \<open>
  A verification method that defines the hook and does not switch start events, one
  that switches, and a fresh transaction for the device \<open>DEV1\<close> of another user.
\<close>

definition example_env :: env where
  "example_env =
     \<lparr>canSwitchStartEvent = (\<lambda>ev. False), doVerification = True,
      getUserId = Some ''@alice:example.org'',
      newTimeoutError = Event ''m.key.verification.cancel'' (Some ''@alice:example.org'')
        (Content (Some ''m.timeout'') (Some ''Timed out'') None)\<rparr>"

definition switching_env :: env where
  "switching_env = example_env\<lparr>canSwitchStartEvent := (\<lambda>ev. True)\<rparr>"

definition example_verification :: verification where
  "example_verification = new_verification (Some ''@bob:example.org'') (Some ''DEV1'') None True"

text \<open>
  Events of the other user: a start event, a cancellation, and two steps of a method.
\<close>

definition start_event :: event where
  "start_event = Event ''m.key.verification.start'' (Some ''@bob:example.org'') (Content None None None)"

definition remote_cancel :: event where
  "remote_cancel = Event ''m.key.verification.cancel'' (Some ''@bob:example.org'')
     (Content (Some ''m.user'') (Some ''rejected'') None)"

definition key_event :: event where
  "key_event = Event ''m.key.verification.key'' (Some ''@bob:example.org'') (Content None None None)"

definition mac_event :: event where
  "mac_event = Event ''m.key.verification.mac'' (Some ''@bob:example.org'') (Content None None None)"

text \<open>
  A store that knows the device \<open>DEV1\<close> and the cross-signing identity
  \<open>MASTER\<close> of the other user; a verifier that accepts every key, and one that
  throws unless the key information is \<open>good\<close>.
\<close>

definition example_keys_env :: keys_env where
  "example_keys_env =
     \<lparr>getStoredDevice = (\<lambda>u d. if u = ''@bob:example.org'' \<and> d = Some ''DEV1''
          then Some (DeviceInfo [(''ed25519:DEV1'', Some ''base64key'')] (Some ''DEV1''))
          else None),
      getStoredCrossSigningForUser = (\<lambda>u. if u = ''@bob:example.org''
          then Some (Some ''MASTER'') else None),
      setDeviceVerified = (\<lambda>u d. None)\<rparr>"

definition accepting :: verifier where
  "accepting keyId device keyInfo = None"

definition mismatching :: verifier where
  "mismatching keyId device keyInfo =
     (if keyInfo = ''good'' then None else Some (Error ''Key mismatch''))"

section \<open>Frame lemmas\<close>

lemmas eval_defs = example_env_def example_verification_def new_verification_def
  waitForEvent_def switchStartEvent_def handleEvent_def done_transaction_def verify_def
  cancel_def cancel_message_def cancel_cause_def filled_def timeoutCallback_def settle_def
  newPromise_def
  resetTimer_def endTimer_def send_def emit_def call_resolve_def call_reject_def
  template_def orElse_def Let_def

lemmas eval_defs2 = eval_defs switching_env_def start_event_def remote_cancel_def
  key_event_def mac_event_def

lemmas keys_defs = verifyKeys_def resolveDevice_def deviceIdOf_def example_keys_env_def
  accepting_def mismatching_def entryEffect_def recorded_def Let_def

lemma settle_fields [simp]:
  "promise (settle p v s) = promise s" "trace (settle p v s) = trace s"
  "cancelled (settle p v s) = cancelled s" "done_flag (settle p v s) = done_flag s"
  "expectedEvent (settle p v s) = expectedEvent s" "resolveEvent (settle p v s) = resolveEvent s"
  "rejectEvent (settle p v s) = rejectEvent s" "reject (settle p v s) = reject s"
  "resolve (settle p v s) = resolve s" "started (settle p v s) = started s"
  "userId (settle p v s) = userId s" "deviceId (settle p v s) = deviceId s"
  "startEvent (settle p v s) = startEvent s" "timeouts (settle p v s) = timeouts s"
  "transactionTimeoutTimer (settle p v s) = transactionTimeoutTimer s"
  "length (promises (settle p v s)) = length (promises s)"
  by (simp_all add: settle_def)

lemma call_reject_fields [simp]:
  "promise (call_reject p e s) = promise s" "trace (call_reject p e s) = trace s"
  "cancelled (call_reject p e s) = cancelled s" "done_flag (call_reject p e s) = True"
  "expectedEvent (call_reject p e s) = expectedEvent s" "resolveEvent (call_reject p e s) = resolveEvent s"
  "rejectEvent (call_reject p e s) = rejectEvent s" "reject (call_reject p e s) = reject s"
  "resolve (call_reject p e s) = resolve s" "started (call_reject p e s) = started s"
  "userId (call_reject p e s) = userId s" "deviceId (call_reject p e s) = deviceId s"
  "transactionTimeoutTimer (call_reject p e s) = None"
  by (simp_all add: call_reject_def endTimer_def)

lemma call_resolve_fields [simp]:
  "promise (call_resolve p s) = promise s" "trace (call_resolve p s) = trace s"
  "cancelled (call_resolve p s) = cancelled s" "done_flag (call_resolve p s) = True"
  "expectedEvent (call_resolve p s) = expectedEvent s" "resolveEvent (call_resolve p s) = resolveEvent s"
  "rejectEvent (call_resolve p s) = rejectEvent s" "reject (call_resolve p s) = reject s"
  "resolve (call_resolve p s) = resolve s" "started (call_resolve p s) = started s"
  "userId (call_resolve p s) = userId s" "deviceId (call_resolve p s) = deviceId s"
  "transactionTimeoutTimer (call_resolve p s) = None"
  by (simp_all add: call_resolve_def endTimer_def)

lemma cancel_promise: "promise s = Some p \<Longrightarrow> promise (cancel env e s) = Some p"
  by (simp add: cancel_def Let_def endTimer_def send_def emit_def split: option.split prod.split)

lemma handleEvent_promise: "promise s = Some p \<Longrightarrow> promise (snd (handleEvent env e s)) = Some p"
  by (simp add: handleEvent_def Let_def resetTimer_def cancel_promise split: option.split)

lemma step_promise:
  assumes "promise s = Some p"
  shows "promise (step env x s) = Some p"
proof (cases x)
  case (WaitForEvent t)
  with assms show ?thesis by (simp add: waitForEvent_def newPromise_def Let_def)
next
  case (SwitchStartEvent ev)
  with assms show ?thesis by (simp add: switchStartEvent_def split: option.split)
next
  case (HandleEvent ev)
  with assms show ?thesis by (simp add: handleEvent_promise)
next
  case Verify
  with assms show ?thesis by (simp add: verify_def)
next
  case Done
  with assms show ?thesis
    by (simp add: done_transaction_def Let_def endTimer_def split: option.split)
next
  case (Cancel e)
  with assms show ?thesis by (simp add: cancel_promise)
next
  case TimeoutFires
  with assms show ?thesis by (simp add: timeoutCallback_def cancel_promise)
qed

lemma run_promise: "promise s = Some p \<Longrightarrow> promise (run env ops s) = Some p"
  by (induction ops arbitrary: s) (simp_all add: step_promise)

lemma verify_sets_promise: "promise (snd (verify env s)) = Some (fst (verify env s))"
  by (simp add: verify_def Let_def resetTimer_def split: option.split)

lemma verify_again: "promise s = Some p \<Longrightarrow> verify env s = (p, s)"
  by (simp add: verify_def)

lemma cancel_hooks: "hooks (cancel env e s) = hooks s"
  by (simp add: hooks_def cancel_def Let_def endTimer_def send_def emit_def newPromise_def
      split: option.split prod.split)

lemma handleEvent_hooks: "hooks (snd (handleEvent env e s)) = hooks s"
proof -
  have "\<And>t. hooks (t\<lparr>expectedEvent := None\<rparr>) = hooks t"
    "\<And>t. hooks (t\<lparr>rejectEvent := None\<rparr>) = hooks t"
    "\<And>t. hooks (t\<lparr>reject := None\<rparr>) = hooks t"
    "\<And>t p v. hooks (settle p v t) = hooks t"
    "\<And>t p v. hooks (call_reject p v t) = hooks t"
    "\<And>t. hooks (resetTimer t) = hooks t"
    by (simp_all add: hooks_def resetTimer_def)
  then show ?thesis
    by (simp add: handleEvent_def Let_def cancel_hooks split: option.split)
qed

lemma step_hooks_other: "x \<noteq> Verify \<Longrightarrow> hooks (step env x s) = hooks s"
proof (cases x)
  case (WaitForEvent t)
  then show ?thesis by (simp add: hooks_def waitForEvent_def newPromise_def Let_def)
next
  case (SwitchStartEvent ev)
  then show ?thesis by (simp add: hooks_def switchStartEvent_def split: option.split)
next
  case (HandleEvent ev)
  then show ?thesis by (simp add: handleEvent_hooks)
next
  case Verify
  assume "x \<noteq> Verify"
  with Verify show ?thesis by simp
next
  case Done
  then show ?thesis
    by (simp add: hooks_def done_transaction_def Let_def endTimer_def split: option.split)
next
  case (Cancel e)
  then show ?thesis by (simp add: cancel_hooks)
next
  case TimeoutFires
  then show ?thesis by (simp add: timeoutCallback_def cancel_hooks)
qed

lemma verify_hooks:
  "promise s = None \<Longrightarrow> hooks (snd (verify env s)) \<le> Suc (hooks s)"
  by (simp add: verify_def hooks_def Let_def resetTimer_def)

lemma run_hooks:
  assumes "promise s = None \<longrightarrow> hooks s = 0" and "hooks s \<le> 1"
  shows "hooks (run env ops s) \<le> 1"
  using assms
proof (induction ops arbitrary: s)
  case Nil
  then show ?case by simp
next
  case (Cons x xs)
  let ?s' = "step env x s"
  have "(promise ?s' = None \<longrightarrow> hooks ?s' = 0) \<and> hooks ?s' \<le> 1"
  proof (cases "x = Verify")
    case True
    show ?thesis
    proof (cases "promise s")
      case None
      with Cons.prems True verify_hooks [of s env] verify_sets_promise [of env s]
      show ?thesis by simp
    next
      case (Some p)
      with Cons.prems True show ?thesis by (simp add: verify_def)
    qed
  next
    case False
    show ?thesis
    proof (cases "promise s")
      case None
      with Cons.prems False show ?thesis by (simp add: step_hooks_other)
    next
      case (Some p)
      with Cons.prems False step_promise [of s p env x] show ?thesis
        by (simp add: step_hooks_other)
    qed
  qed
  then show ?case using Cons.IH [of ?s'] by simp
qed

lemma step_reject_None:
  assumes "reject s = None" and "x \<noteq> Verify"
  shows "reject (step env x s) = None"
proof -
  have c: "\<And>e t. reject t = None \<Longrightarrow> reject (cancel env e t) = None"
    by (simp add: cancel_def Let_def endTimer_def send_def emit_def newPromise_def
        split: option.split prod.split)
  show ?thesis
  proof (cases x)
    case (WaitForEvent t)
    with assms show ?thesis by (simp add: waitForEvent_def newPromise_def Let_def)
  next
    case (SwitchStartEvent ev)
    with assms show ?thesis by (simp add: switchStartEvent_def split: option.split)
  next
    case (HandleEvent ev)
    with assms show ?thesis
      by (simp add: handleEvent_def Let_def resetTimer_def c split: option.split)
  next
    case Verify
    with assms show ?thesis by simp
  next
    case Done
    with assms show ?thesis
      by (simp add: done_transaction_def Let_def endTimer_def split: option.split)
  next
    case (Cancel e)
    with assms show ?thesis by (simp add: c)
  next
    case TimeoutFires
    with assms show ?thesis by (simp add: timeoutCallback_def c)
  qed
qed

lemma run_reject_None:
  "reject s = None \<Longrightarrow> Verify \<notin> set ops \<Longrightarrow> reject (run env ops s) = None"
proof (induction ops arbitrary: s)
  case Nil
  then show ?case by simp
next
  case (Cons x xs)
  from Cons.prems have "reject (step env x s) = None"
    by (intro step_reject_None) auto
  with Cons show ?case by simp
qed

lemma cancel_sets_cancelled: "cancelled s \<Longrightarrow> cancelled (cancel env e s)"
  by (simp add: cancel_def Let_def endTimer_def send_def emit_def newPromise_def
      split: option.split prod.split)

lemma handleEvent_cancelled:
  "cancelled (snd (handleEvent env e s)) =
     (if \<not> done_flag s \<and> Some (getType e) \<noteq> expectedEvent s
         \<and> getType e \<noteq> ''m.key.verification.cancel'' \<and> truthy (expectedEvent s)
      then True else cancelled s)"
proof -
  have "\<And>e t. \<not> done_flag t \<Longrightarrow> cancelled (cancel env e t)"
    by (simp add: cancel_def Let_def endTimer_def send_def emit_def newPromise_def
        split: option.split prod.split)
  then show ?thesis
    by (simp add: handleEvent_def Let_def resetTimer_def split: option.split)
qed

lemma step_cancelled_other:
  "cancelled (snd (waitForEvent t s)) = cancelled s"
  "cancelled (switchStartEvent env ev s) = cancelled s"
  "cancelled (snd (verify env s)) = cancelled s"
  "cancelled (snd (done_transaction env s)) = cancelled s"
     apply (simp add: waitForEvent_def newPromise_def Let_def)
    apply (simp add: switchStartEvent_def split: option.split)
   apply (simp add: verify_def Let_def resetTimer_def split: option.split)
  apply (simp add: done_transaction_def Let_def endTimer_def split: option.split)
  done

lemma cancel_waiter_fields:
  "expectedEvent (cancel env e s) = expectedEvent s"
  "resolveEvent (cancel env e s) = resolveEvent s"
  "rejectEvent (cancel env e s) = rejectEvent s"
  by (simp_all add: cancel_def Let_def endTimer_def send_def emit_def newPromise_def
      split: option.split prod.split)

lemma cancel_done: "done_flag s \<Longrightarrow> done_flag (cancel env e s)"
  by (simp add: cancel_def Let_def endTimer_def)

lemma cancel_consistent: "waiter_consistent (cancel env e s) = waiter_consistent s"
  by (simp add: waiter_consistent_def cancel_waiter_fields)

lemma handleEvent_done: "done_flag s \<Longrightarrow> done_flag (snd (handleEvent env e s))"
  by (simp add: handleEvent_def)

lemma handleEvent_consistent:
  "waiter_consistent s \<Longrightarrow> waiter_consistent (snd (handleEvent env e s))"
proof -
  have "\<And>t p v. waiter_consistent (settle p v t) = waiter_consistent t"
    "\<And>t p v. waiter_consistent (call_reject p v t) = waiter_consistent t"
    by (simp_all add: waiter_consistent_def)
  then show "waiter_consistent s \<Longrightarrow> waiter_consistent (snd (handleEvent env e s))"
    by (simp add: handleEvent_def Let_def cancel_consistent split: option.split)
      (auto simp add: waiter_consistent_def resetTimer_def)
qed

lemma step_monotone:
  "(cancelled s \<longrightarrow> cancelled (step env x s)) \<and> (done_flag s \<longrightarrow> done_flag (step env x s))"
proof (cases x)
  case (WaitForEvent t)
  then show ?thesis by (simp add: waitForEvent_def newPromise_def Let_def)
next
  case (SwitchStartEvent ev)
  then show ?thesis by (simp add: switchStartEvent_def split: option.split)
next
  case (HandleEvent ev)
  then show ?thesis by (simp add: handleEvent_done handleEvent_cancelled)
next
  case Verify
  then show ?thesis by (simp add: verify_def Let_def resetTimer_def split: option.split)
next
  case Done
  then show ?thesis
    by (simp add: done_transaction_def Let_def endTimer_def split: option.split)
next
  case (Cancel e)
  then show ?thesis by (simp add: cancel_done cancel_sets_cancelled)
next
  case TimeoutFires
  then show ?thesis by (simp add: timeoutCallback_def)
qed

lemma step_consistent: "waiter_consistent s \<Longrightarrow> waiter_consistent (step env x s)"
proof (cases x)
  case (WaitForEvent t)
  then show "waiter_consistent s \<Longrightarrow> ?thesis"
    by (simp add: waiter_consistent_def waitForEvent_def newPromise_def Let_def)
next
  case (SwitchStartEvent ev)
  then show "waiter_consistent s \<Longrightarrow> ?thesis"
    by (simp add: waiter_consistent_def switchStartEvent_def split: option.split)
next
  case (HandleEvent ev)
  then show "waiter_consistent s \<Longrightarrow> ?thesis" by (simp add: handleEvent_consistent)
next
  case Verify
  then show "waiter_consistent s \<Longrightarrow> ?thesis"
    by (simp add: waiter_consistent_def verify_def Let_def resetTimer_def split: option.split)
next
  case Done
  then show "waiter_consistent s \<Longrightarrow> ?thesis"
    by (simp add: waiter_consistent_def done_transaction_def Let_def endTimer_def
        split: option.split)
next
  case (Cancel e)
  then show "waiter_consistent s \<Longrightarrow> ?thesis" by (simp add: cancel_consistent)
next
  case TimeoutFires
  then show "waiter_consistent s \<Longrightarrow> ?thesis"
    by (simp add: timeoutCallback_def cancel_consistent)
qed

lemma settle_keeps_settled:
  "w < length (promises s) \<Longrightarrow> promises s ! w \<noteq> Pending \<Longrightarrow>
   promises (settle p v s) ! w = promises s ! w"
  by (cases "p = w") (simp_all add: settle_def)

lemma cancel_keeps_settled:
  assumes "w < length (promises s)" and "promises s ! w \<noteq> Pending"
  shows "promises (cancel env e s) ! w = promises s ! w"
proof -
  have a: "\<And>t c. promises (send t c s) = promises s" "\<And>n c t. promises (emit n c t) = promises t"
    "\<And>t. promises (endTimer t) = promises t"
    by (simp_all add: send_def emit_def endTimer_def)
  have b: "\<And>p c t. promises t = promises s \<Longrightarrow> promises (call_reject p c t) ! w = promises s ! w"
    using assms by (simp add: call_reject_def settle_def endTimer_def nth_list_update)
  from assms show ?thesis
    by (simp add: cancel_def Let_def a b newPromise_def nth_append split: option.split prod.split)
      (simp add: send_def endTimer_def emit_def call_reject_def settle_def nth_list_update nth_append)
qed

lemma cancel_trace:
  "\<not> done_flag s \<Longrightarrow>
   trace (cancel env e s) =
     trace s
     @ (if truthy (userId s) \<and> truthy (deviceId s) then
          (case cancel_message env e s of Some (t, c) \<Rightarrow> [ChannelSend t c] | None \<Rightarrow> [])
        else [])
     @ [Emit ''cancel''
          (if truthy (userId s) \<and> truthy (deviceId s) then cancel_cause e s else e)]"
  by (simp add: cancel_def Let_def endTimer_def send_def emit_def newPromise_def cancel_message_def
      cancel_cause_def split: option.split prod.split cause.split)

lemma cancel_cause_Error: "cancel_cause (Error m) s = Error m"
  by (simp add: cancel_cause_def)

lemma cancel_message_Error:
  "cancel_message env (Error m) s =
     Some (''m.key.verification.cancel'', Content (Some ''m.unknown'') (Some (toString (Error m))) None)"
  by (simp add: cancel_message_def)

lemma verifyEntries_pass:
  assumes "\<forall>entry \<in> set keys. \<forall>d. resolveDevice kenv uid (fst entry) = Some d \<longrightarrow>
             verifier (fst entry) d (snd entry) = None"
  shows "verifyEntries kenv verifier uid keys (devs, effs) =
           (None, devs @ recorded kenv uid keys, effs @ map (entryEffect kenv uid) keys)"
  using assms
proof (induction keys arbitrary: devs effs)
  case Nil
  then show ?case by (simp add: recorded_def)
next
  case (Cons entry rest)
  obtain k i where e: "entry = (k, i)" by (cases entry)
  show ?case
  proof (cases "resolveDevice kenv uid k")
    case None
    with Cons e show ?thesis by (simp add: recorded_def entryEffect_def)
  next
    case (Some d)
    with Cons.prems e have "verifier k d i = None" by simp
    with Cons Some e show ?thesis by (simp add: recorded_def entryEffect_def)
  qed
qed

lemma markVerified_pass:
  assumes "\<forall>d \<in> set ds. setDeviceVerified kenv uid d = None"
  shows "markVerified kenv uid ds effs = (None, effs @ map (DeviceVerified uid) ds)"
  using assms by (induction ds arbitrary: effs) simp_all

lemma hook_inv_new: "hook_inv (new_verification u d st rq)"
  by (simp add: hook_inv_def new_verification_def)

lemma hook_inv_cancel: "hook_inv s \<Longrightarrow> hook_inv (cancel env e s)"
  by (auto simp add: hook_inv_def cancel_def Let_def endTimer_def send_def emit_def newPromise_def
      split: option.split prod.split)

lemma hook_inv_handleEvent:
  assumes "hook_inv s"
  shows "hook_inv (snd (handleEvent env e s))"
proof -
  have a: "hook_inv (t\<lparr>expectedEvent := None\<rparr>)" if "hook_inv t" for t
    using that by (simp add: hook_inv_def)
  have b: "hook_inv (t\<lparr>rejectEvent := None\<rparr>)" "hook_inv (settle w v t)"
    "hook_inv (resetTimer t)" if "hook_inv t" for t w v
    using that by (simp_all add: hook_inv_def resetTimer_def)
  have c: "hook_inv (call_reject p v (s\<lparr>reject := None\<rparr>))" for p v
    using assms by (simp add: hook_inv_def)
  have d: "hook_inv (resetTimer (s\<lparr>expectedEvent := None, rejectEvent := None\<rparr>))"
    using assms by (intro b a)
  have e: "hook_inv (settle w v (resetTimer (s\<lparr>expectedEvent := None, rejectEvent := None\<rparr>)))"
    for w v
    using d by (rule b)
  have f: "hook_inv (cancel env c (s\<lparr>expectedEvent := None\<rparr>))"
    "hook_inv (cancel env c (settle w v (s\<lparr>expectedEvent := None, rejectEvent := None\<rparr>)))"
    for c w v
    using assms by (auto intro!: hook_inv_cancel a b)
  show ?thesis
    using assms by (simp add: handleEvent_def Let_def c d e f split: option.split)
qed

lemma hook_inv_step:
  assumes "hook_inv s" and "case x of WaitForEvent t \<Rightarrow> started s | _ \<Rightarrow> True"
  shows "hook_inv (step env x s)"
proof (cases x)
  case (WaitForEvent t)
  with assms show ?thesis by (auto simp add: hook_inv_def waitForEvent_def newPromise_def Let_def)
next
  case (SwitchStartEvent ev)
  with assms show ?thesis
    by (simp add: hook_inv_def switchStartEvent_def split: option.split)
next
  case (HandleEvent ev)
  with assms show ?thesis by (simp add: hook_inv_handleEvent)
next
  case Verify
  with assms show ?thesis
    by (auto simp add: hook_inv_def verify_def Let_def resetTimer_def split: option.split)
next
  case Done
  with assms show ?thesis
    by (auto simp add: hook_inv_def done_transaction_def Let_def endTimer_def
        split: option.split)
next
  case (Cancel e)
  with assms show ?thesis by (simp add: hook_inv_cancel)
next
  case TimeoutFires
  with assms show ?thesis by (simp add: timeoutCallback_def hook_inv_cancel)
qed

lemma hook_inv_run: "hook_inv s \<Longrightarrow> waits_in_hook env ops s \<Longrightarrow> hook_inv (run env ops s)"
proof (induction ops arbitrary: s)
  case Nil
  then show ?case by simp
next
  case (Cons x xs)
  from Cons.prems have "hook_inv (step env x s)"
    by (intro hook_inv_step) simp_all
  with Cons show ?case by simp
qed

lemma waits_in_hook_append:
  "waits_in_hook env (ops @ [x]) s =
     (waits_in_hook env ops s
      \<and> (case x of WaitForEvent t \<Rightarrow> started (run env ops s) | _ \<Rightarrow> True))"
  by (induction ops arbitrary: s) (simp_all cong: operation.case_cong)

lemma hook_inv_ended:
  assumes "hook_inv s" and "cancelled s" and "\<not> done_flag s"
  shows "reject s = None" and "expectedEvent s = None" and "\<not> started s"
  using assms by (auto simp add: hook_inv_def)

section \<open>Cancelling twice\<close>

text \<open>
  Claim C1 says that a second \<open>cancel()\<close> is a no-op, also when the first one came
  before \<open>verify()\<close>. The code at that input: \<open>cancel()\<close> on a new transaction, before
  any \<open>verify()\<close>, leaves \<open>_done\<close> false, so a second \<open>cancel()\<close> sends a second
  \<open>m.key.verification.cancel\<close> and emits \<open>cancel\<close> a second time.
\<close>

theorem cancel_twice_before_verify:
  "trace (run example_env [Cancel (Error ''first''), Cancel (Error ''second'')]
            example_verification) =
     [ChannelSend ''m.key.verification.cancel''
        (Content (Some ''m.unknown'') (Some ''Error: first'') None),
      Emit ''cancel'' (Error ''first''),
      ChannelSend ''m.key.verification.cancel''
        (Content (Some ''m.unknown'') (Some ''Error: second'') None),
      Emit ''cancel'' (Error ''second'')]"
  by (simp add: eval_defs)

section \<open>Idempotence of verify\<close>

text \<open>
  Claim C2. \<open>verify()\<close> is idempotent: after a first call, and whatever calls come in
  between, a further call returns the same promise as the first and leaves the object
  as it is (no timer armed, no hook started, nothing sent); and over any sequence of
  calls on a new transaction the \<open>_doVerification\<close> hook is started at most once.
\<close>

theorem verify_idempotent:
  "verify env (run env ops (snd (verify env s)))
     = (fst (verify env s), run env ops (snd (verify env s)))
   \<and> length (filter (\<lambda>x. x = DoVerification)
               (trace (run env ops (new_verification u d st rq)))) \<le> 1"
proof
  show "verify env (run env ops (snd (verify env s)))
          = (fst (verify env s), run env ops (snd (verify env s)))"
    by (rule verify_again) (rule run_promise, rule verify_sets_promise)
  have "hooks (run env ops (new_verification u d st rq)) \<le> 1"
    by (rule run_hooks) (simp_all add: hooks_def new_verification_def)
  then show "length (filter (\<lambda>x. x = DoVerification)
                       (trace (run env ops (new_verification u d st rq)))) \<le> 1"
    by (simp add: hooks_def)
qed

text \<open>
  At a concrete transaction: the promise of the first call is promise 0, and a call
  after a wait, a cancellation and another \<open>verify()\<close> returns promise 0 again; two
  calls start the hook once.
\<close>

theorem verify_idempotent_witness:
  "fst (verify example_env
         (run example_env [WaitForEvent ''m.key.verification.key'', Cancel (Error ''user''), Verify]
            (snd (verify example_env example_verification)))) = 0
   \<and> length (filter (\<lambda>x. x = DoVerification)
        (trace (run example_env [Verify, Verify]
           (new_verification (Some ''@bob:example.org'') (Some ''DEV1'') None True)))) = 1"
proof -
  have "fst (verify example_env example_verification) = 0"
    by (simp add: eval_defs)
  moreover have "length (filter (\<lambda>x. x = DoVerification)
        (trace (run example_env [Verify, Verify]
           (new_verification (Some ''@bob:example.org'') (Some ''DEV1'') None True)))) = 1"
    by (simp add: eval_defs)
  ultimately show ?thesis
    using verify_idempotent [of example_env
        "[WaitForEvent ''m.key.verification.key'', Cancel (Error ''user''), Verify]"
        example_verification "Some ''@bob:example.org''" "Some ''DEV1''" None True]
    by simp
qed

section \<open>Events after the end of a transaction\<close>

text \<open>
  Claim C3. On every transaction reached from a new one by calls whose
  \<open>_waitForEvent\<close> calls come from the started hook, if the transaction is done or
  cancelled then \<open>handleEvent\<close> is a no-op for every event: it throws nothing and
  leaves the object as it is, so no field changes, no waiter is resolved or rejected,
  nothing is sent and no cancellation is triggered. That includes the transaction
  cancelled before \<open>verify()\<close>, which is cancelled and not done.
\<close>

theorem handleEvent_ignores_ended:
  assumes "waits_in_hook env ops (new_verification u d st rq)"
    and "s = run env ops (new_verification u d st rq)"
    and "done_flag s \<or> cancelled s"
  shows "handleEvent env e s = (None, s)"
proof (cases "done_flag s")
  case True
  then show ?thesis by (simp add: handleEvent_def)
next
  case False
  have inv: "hook_inv s"
    unfolding assms(2) using assms(1) by (intro hook_inv_run hook_inv_new)
  from False assms(3) have c: "cancelled s" by simp
  from hook_inv_ended [OF inv c False] False show ?thesis
    by (simp add: handleEvent_def)
qed

text \<open>
  On a transaction cancelled before \<open>verify()\<close>, which is cancelled and not done, and
  on one cancelled while its hook waits for the key event, which is cancelled and done.
\<close>

theorem handleEvent_ignores_ended_witness:
  "cancelled (run example_env [Cancel (Error ''user'')] example_verification)
   \<and> \<not> done_flag (run example_env [Cancel (Error ''user'')] example_verification)
   \<and> handleEvent example_env mac_event
        (run example_env [Cancel (Error ''user'')] example_verification)
      = (None, run example_env [Cancel (Error ''user'')] example_verification)
   \<and> done_flag (run example_env
        [Verify, WaitForEvent ''m.key.verification.key'', Cancel (Error ''user'')]
        example_verification)
   \<and> handleEvent example_env key_event
        (run example_env
           [Verify, WaitForEvent ''m.key.verification.key'', Cancel (Error ''user'')]
           example_verification)
      = (None, run example_env
           [Verify, WaitForEvent ''m.key.verification.key'', Cancel (Error ''user'')]
           example_verification)"
proof -
  define s where "s = run example_env [Cancel (Error ''user'')] example_verification"
  define s' where "s' = run example_env
     [Verify, WaitForEvent ''m.key.verification.key'', Cancel (Error ''user'')]
     example_verification"
  have a: "waits_in_hook example_env [Cancel (Error ''user'')]
             (new_verification (Some ''@bob:example.org'') (Some ''DEV1'') None True)"
    "waits_in_hook example_env
       [Verify, WaitForEvent ''m.key.verification.key'', Cancel (Error ''user'')]
       (new_verification (Some ''@bob:example.org'') (Some ''DEV1'') None True)"
    by (simp_all add: eval_defs2)
  have b: "s = run example_env [Cancel (Error ''user'')]
             (new_verification (Some ''@bob:example.org'') (Some ''DEV1'') None True)"
    "s' = run example_env
       [Verify, WaitForEvent ''m.key.verification.key'', Cancel (Error ''user'')]
       (new_verification (Some ''@bob:example.org'') (Some ''DEV1'') None True)"
    by (simp_all add: s_def s'_def example_verification_def)
  have c: "cancelled s" "\<not> done_flag s" "done_flag s'"
    by (simp_all add: s_def s'_def eval_defs2)
  have "done_flag s \<or> cancelled s" "done_flag s' \<or> cancelled s'"
    using c by simp_all
  then show ?thesis
    unfolding s_def [symmetric] s'_def [symmetric]
    using handleEvent_ignores_ended [OF a(1) b(1), of mac_event]
      handleEvent_ignores_ended [OF a(2) b(2), of key_event] c
    by simp
qed

section \<open>The state invariant\<close>

text \<open>
  Claim C4, amended. After every operation \<open>cancelled\<close> and \<open>_done\<close> stay set once
  set, and the waiter fields stay consistent in this sense: a live \<open>_rejectEvent\<close>
  comes with an expectation, and an expectation with a \<open>_resolveEvent\<close>. \<open>done()\<close>
  never sets \<open>cancelled\<close>, and a \<open>cancel()\<close> that finds the \<open>verify()\<close> promise with
  its \<open>_reject\<close> handle on a transaction that is not done sets both \<open>cancelled\<close> and
  \<open>_done\<close>.
\<close>

theorem flags_monotone_waiter_consistent:
  "(cancelled s \<longrightarrow> cancelled (step env x s))
   \<and> (done_flag s \<longrightarrow> done_flag (step env x s))
   \<and> (waiter_consistent s \<longrightarrow> waiter_consistent (step env x s))
   \<and> waiter_consistent (new_verification u d st rq)
   \<and> cancelled (snd (done_transaction env s)) = cancelled s
   \<and> (\<not> done_flag s \<and> promise s \<noteq> None \<and> reject s \<noteq> None \<longrightarrow>
        cancelled (cancel env e s) \<and> done_flag (cancel env e s))"
proof -
  have "cancelled (cancel env e s) \<and> done_flag (cancel env e s)"
    if "\<not> done_flag s \<and> promise s \<noteq> None \<and> reject s \<noteq> None"
    using that
    by (auto simp add: cancel_def Let_def endTimer_def send_def emit_def
        split: option.split prod.split)
  moreover have "waiter_consistent (new_verification u d st rq)"
    by (simp add: waiter_consistent_def new_verification_def)
  ultimately show ?thesis
    using step_monotone [of s env x] step_consistent [of s env x]
    by (simp add: step_cancelled_other)
qed

text \<open>
  At concrete transactions: both flags survive an event that arrives after
  \<open>verify()\<close> and \<open>cancel()\<close>, the waiter fields are consistent after a matched
  event, and a \<open>cancel()\<close> after \<open>verify()\<close> sets both flags.
\<close>

theorem flags_monotone_waiter_consistent_witness:
  "cancelled (step example_env (HandleEvent key_event)
      (run example_env [Verify, Cancel (Error ''user'')] example_verification))
   \<and> done_flag (step example_env (HandleEvent key_event)
      (run example_env [Verify, Cancel (Error ''user'')] example_verification))
   \<and> waiter_consistent (step example_env (HandleEvent key_event)
      (run example_env [WaitForEvent ''m.key.verification.key''] example_verification))
   \<and> cancelled (cancel example_env (Error ''user'') (run example_env [Verify] example_verification))
   \<and> done_flag (cancel example_env (Error ''user'') (run example_env [Verify] example_verification))"
proof -
  define s where "s = run example_env [Verify, Cancel (Error ''user'')] example_verification"
  define s' where "s' = run example_env [WaitForEvent ''m.key.verification.key''] example_verification"
  define s'' where "s'' = run example_env [Verify] example_verification"
  have a: "cancelled s" "done_flag s" "waiter_consistent s'"
    "\<not> done_flag s'' \<and> promise s'' \<noteq> None \<and> reject s'' \<noteq> None"
    by (simp_all add: s_def s'_def s''_def eval_defs2 waiter_consistent_def)
  show ?thesis
    unfolding s_def [symmetric] s'_def [symmetric] s''_def [symmetric]
    using flags_monotone_waiter_consistent [of s example_env "HandleEvent key_event"]
      flags_monotone_waiter_consistent [of s' example_env "HandleEvent key_event"]
      flags_monotone_waiter_consistent [of s'' example_env "HandleEvent key_event"
        _ _ _ _ "Error ''user''"] a
    by simp
qed

text \<open>
  The claim C4 as stated fails: after a matched event the expectation is cleared while
  \<open>_resolveEvent\<close> stays set, and a single \<open>cancel()\<close> after \<open>verify()\<close> sets both
  \<open>cancelled\<close> and \<open>_done\<close>.
\<close>

theorem waiter_pair_counterexample:
  "expectedEvent (run example_env
      [WaitForEvent ''m.key.verification.key'',
       HandleEvent (Event ''m.key.verification.key'' (Some ''@bob:example.org'')
                      (Content None None None))] example_verification) = None
   \<and> resolveEvent (run example_env
      [WaitForEvent ''m.key.verification.key'',
       HandleEvent (Event ''m.key.verification.key'' (Some ''@bob:example.org'')
                      (Content None None None))] example_verification) = Some 0
   \<and> \<not> cancelled (run example_env [Verify] example_verification)
   \<and> \<not> done_flag (run example_env [Verify] example_verification)
   \<and> cancelled (run example_env [Verify, Cancel (Error ''user'')] example_verification)
   \<and> done_flag (run example_env [Verify, Cancel (Error ''user'')] example_verification)"
  by (simp add: example_env_def example_verification_def new_verification_def
      waitForEvent_def handleEvent_def verify_def cancel_def cancel_message_def
      settle_def newPromise_def resetTimer_def endTimer_def send_def emit_def
      call_reject_def Let_def)

section \<open>Unexpected events\<close>

text \<open>
  Claim C5, amended. On a transaction that is not done and has an expectation set (a
  non-empty type, the test \<open>this._expectedEvent\<close> of the code), an event whose type is
  neither the expected one nor \<open>m.key.verification.cancel\<close> clears the expectation,
  rejects the outstanding waiter with an error naming the expected and the received
  type, sets \<open>cancelled\<close> and emits \<open>cancel\<close>; the outbound
  \<open>m.key.verification.cancel\<close> with code \<open>m.unknown\<close> is sent when both the user id
  and the device id of the other party are set, and nothing is sent otherwise.
\<close>

theorem unexpected_event_cancels:
  assumes "\<not> done_flag s" and "expectedEvent s = Some t" and "t \<noteq> []"
    and "getType e \<noteq> t" and "getType e \<noteq> ''m.key.verification.cancel''"
  shows "fst (handleEvent env e s) = None
    \<and> expectedEvent (snd (handleEvent env e s)) = None
    \<and> rejectEvent (snd (handleEvent env e s)) = None
    \<and> cancelled (snd (handleEvent env e s))
    \<and> (rejectEvent s = Some w \<and> w < length (promises s) \<and> promises s ! w = Pending \<longrightarrow>
         promises (snd (handleEvent env e s)) ! w =
           Rejected (Error (''Unexpected message: expecting '' @ t @ '' but got '' @ getType e)))
    \<and> (truthy (userId s) \<and> truthy (deviceId s) \<longrightarrow>
         trace (snd (handleEvent env e s)) =
           trace s @
           [ChannelSend ''m.key.verification.cancel''
              (Content (Some ''m.unknown'')
                 (Some (''Error: Unexpected message: expecting '' @ t @ '' but got '' @ getType e))
                 None),
            Emit ''cancel''
              (Error (''Unexpected message: expecting '' @ t @ '' but got '' @ getType e))])
    \<and> (\<not> (truthy (userId s) \<and> truthy (deviceId s)) \<longrightarrow>
         trace (snd (handleEvent env e s)) =
           trace s @
           [Emit ''cancel''
              (Error (''Unexpected message: expecting '' @ t @ '' but got '' @ getType e))])"
proof -
  define x where "x = Error (''Unexpected message: expecting '' @ t @ '' but got '' @ getType e)"
  define s2 where "s2 = (case rejectEvent s of
       Some w \<Rightarrow> settle w (Rejected x) (s\<lparr>expectedEvent := None, rejectEvent := None\<rparr>)
     | None \<Rightarrow> s\<lparr>expectedEvent := None\<rparr>)"
  have h: "handleEvent env e s = (None, cancel env x s2)"
    using assms
    by (simp add: handleEvent_def template_def Let_def x_def s2_def split: option.split)
  have nd: "\<not> done_flag s2"
    using assms by (simp add: s2_def split: option.split)
  have f: "expectedEvent s2 = None" "rejectEvent s2 = None" "trace s2 = trace s"
    "userId s2 = userId s" "deviceId s2 = deviceId s"
    by (simp_all add: s2_def split: option.split)
  have c: "cancelled (cancel env x s2)"
    using nd by (simp add: cancel_def Let_def endTimer_def send_def emit_def newPromise_def
        split: option.split prod.split)
  have p: "promises (cancel env x s2) ! w = Rejected x"
    if "rejectEvent s = Some w \<and> w < length (promises s) \<and> promises s ! w = Pending"
  proof -
    from that have "promises s2 ! w = Rejected x" "w < length (promises s2)"
      by (simp_all add: s2_def settle_def)
    then show ?thesis by (simp add: cancel_keeps_settled)
  qed
  have ts: "toString x =
      ''Error: Unexpected message: expecting '' @ t @ '' but got '' @ getType e"
    by (simp add: x_def)
  have m: "cancel_message env x s2 =
      Some (''m.key.verification.cancel'', Content (Some ''m.unknown'') (Some (toString x)) None)"
    by (simp add: x_def cancel_message_def)
  have cc: "cancel_cause x s2 = x"
    by (simp add: x_def cancel_cause_def)
  have tr: "trace (cancel env x s2) =
     trace s
     @ (if truthy (userId s) \<and> truthy (deviceId s) then
          [ChannelSend ''m.key.verification.cancel''
              (Content (Some ''m.unknown'')
                (Some (''Error: Unexpected message: expecting '' @ t @ '' but got '' @ getType e))
                None)]
        else [])
     @ [Emit ''cancel'' x]"
    unfolding cancel_trace [OF nd] m f ts cc by simp
  show ?thesis
    unfolding h fst_conv snd_conv x_def [symmetric]
    using c p tr by (simp add: cancel_waiter_fields f)
qed

text \<open>
  At a concrete transaction after \<open>verify()\<close> and a wait for the key event: the
  waiter, promise 1, is rejected, the cancellation is sent and the flag is set.
\<close>

theorem unexpected_event_cancels_witness:
  "promises (run example_env
      [Verify, WaitForEvent ''m.key.verification.key'', HandleEvent mac_event]
      example_verification) ! 1 =
     Rejected (Error
       ''Unexpected message: expecting m.key.verification.key but got m.key.verification.mac'')
   \<and> trace (run example_env
      [Verify, WaitForEvent ''m.key.verification.key'', HandleEvent mac_event]
      example_verification) =
     [DoVerification,
      ChannelSend ''m.key.verification.cancel''
        (Content (Some ''m.unknown'')
           (Some ''Error: Unexpected message: expecting m.key.verification.key but got m.key.verification.mac'')
           None),
      Emit ''cancel'' (Error
        ''Unexpected message: expecting m.key.verification.key but got m.key.verification.mac'')]
   \<and> cancelled (run example_env
      [Verify, WaitForEvent ''m.key.verification.key'', HandleEvent mac_event]
      example_verification)"
proof -
  define s where
    "s = run example_env [Verify, WaitForEvent ''m.key.verification.key''] example_verification"
  have a: "\<not> done_flag s" "expectedEvent s = Some ''m.key.verification.key''"
    "rejectEvent s = Some 1 \<and> 1 < length (promises s) \<and> promises s ! 1 = Pending"
    "truthy (userId s) \<and> truthy (deviceId s)" "trace s = [DoVerification]"
    by (simp_all add: s_def eval_defs2)
  have b: "getType mac_event \<noteq> ''m.key.verification.key''"
    "getType mac_event \<noteq> ''m.key.verification.cancel''"
    "''m.key.verification.key'' \<noteq> []"
    by (simp_all add: mac_event_def)
  have r: "run example_env
      [Verify, WaitForEvent ''m.key.verification.key'', HandleEvent mac_event]
      example_verification = snd (handleEvent example_env mac_event s)"
    by (simp add: s_def)
  show ?thesis
    unfolding r
    using unexpected_event_cancels [OF a(1) a(2) b(3) b(1) b(2), of example_env 1] a(3,4,5)
    by (simp add: mac_event_def)
qed

text \<open>
  The claim C5 as stated fails on a transaction without a device id: the waiter is
  rejected and the transaction cancelled, and no message is sent. It also fails when the
  expected type is the empty string, which the test \<open>this._expectedEvent\<close> takes for
  no expectation: the event changes nothing.
\<close>

theorem unexpected_event_counterexample:
  "trace (run example_env [Verify, WaitForEvent ''m.key.verification.key'', HandleEvent mac_event]
            (new_verification (Some ''@bob:example.org'') None None True)) =
     [DoVerification,
      Emit ''cancel'' (Error
        ''Unexpected message: expecting m.key.verification.key but got m.key.verification.mac'')]
   \<and> cancelled (run example_env
        [Verify, WaitForEvent ''m.key.verification.key'', HandleEvent mac_event]
        (new_verification (Some ''@bob:example.org'') None None True))
   \<and> expectedEvent (run example_env [Verify, WaitForEvent []] example_verification) = Some []
   \<and> run example_env [Verify, WaitForEvent [], HandleEvent mac_event] example_verification
     = run example_env [Verify, WaitForEvent []] example_verification"
  by (simp add: eval_defs2)

section \<open>Cancellation by the other side\<close>

text \<open>
  Claim C6. On a transaction that is not done and does not expect
  \<open>m.key.verification.cancel\<close>, an inbound \<open>m.key.verification.cancel\<close> rejects the
  pending \<open>verify()\<close> promise with an error whose message embeds the reason and the
  code of the event, marks the transaction done, and sends nothing; on a transaction on
  which \<open>verify()\<close> was never called the event changes nothing.
\<close>

theorem remote_cancel_rejects_verify:
  assumes "getType e = ''m.key.verification.cancel''"
    and "\<not> done_flag s"
    and "expectedEvent s \<noteq> Some ''m.key.verification.cancel''"
  shows "(reject s = Some p \<and> p < length (promises s) \<and> promises s ! p = Pending \<longrightarrow>
            handleEvent env e s =
              (None, s\<lparr>done_flag := True, transactionTimeoutTimer := None, reject := None,
                        promises := (promises s)[p := Rejected (Error
                          (''Other side cancelled verification because ''
                           @ template (reason (getContent e)) @ '' (''
                           @ template (code (getContent e)) @ '')''))]\<rparr>)
            \<and> trace (snd (handleEvent env e s)) = trace s)
       \<and> (Verify \<notin> set ops \<and> s = run env ops (new_verification u d st rq) \<longrightarrow>
            handleEvent env e s = (None, s))"
proof (intro conjI impI)
  assume a: "reject s = Some p \<and> p < length (promises s) \<and> promises s ! p = Pending"
  with assms show "handleEvent env e s =
              (None, s\<lparr>done_flag := True, transactionTimeoutTimer := None, reject := None,
                        promises := (promises s)[p := Rejected (Error
                          (''Other side cancelled verification because ''
                           @ template (reason (getContent e)) @ '' (''
                           @ template (code (getContent e)) @ '')''))]\<rparr>)"
    by (simp add: handleEvent_def call_reject_def settle_def endTimer_def Let_def)
  from a assms show "trace (snd (handleEvent env e s)) = trace s"
    by (simp add: handleEvent_def Let_def)
next
  assume b: "Verify \<notin> set ops \<and> s = run env ops (new_verification u d st rq)"
  have "reject (run env ops (new_verification u d st rq)) = None"
    using b by (intro run_reject_None) (simp_all add: new_verification_def)
  with b have "reject s = None" by simp
  with assms show "handleEvent env e s = (None, s)"
    by (simp add: handleEvent_def)
qed

text \<open>
  With the event of the specification, reason \<open>rejected\<close> and code \<open>m.user\<close>.
\<close>

theorem remote_cancel_rejects_verify_witness:
  "promises (snd (handleEvent example_env remote_cancel
       (snd (verify example_env example_verification)))) =
     [Rejected (Error ''Other side cancelled verification because rejected (m.user)'')]
   \<and> trace (snd (handleEvent example_env remote_cancel
       (snd (verify example_env example_verification)))) = [DoVerification]
   \<and> handleEvent example_env remote_cancel example_verification = (None, example_verification)"
proof -
  define s where "s = snd (verify example_env example_verification)"
  have a: "getType remote_cancel = ''m.key.verification.cancel''" "\<not> done_flag s"
    "expectedEvent s \<noteq> Some ''m.key.verification.cancel''"
    "reject s = Some 0 \<and> 0 < length (promises s) \<and> promises s ! 0 = Pending"
    "promises s = [Pending]" "trace s = [DoVerification]"
    by (simp_all add: s_def eval_defs2)
  have b: "\<not> done_flag example_verification"
    "expectedEvent example_verification \<noteq> Some ''m.key.verification.cancel''"
    "Verify \<notin> set [] \<and> example_verification =
       run example_env [] (new_verification (Some ''@bob:example.org'') (Some ''DEV1'') None True)"
    by (simp_all add: example_verification_def new_verification_def)
  have c: "template (reason (getContent remote_cancel)) = ''rejected''"
    "template (code (getContent remote_cancel)) = ''m.user''"
    by (simp_all add: remote_cancel_def template_def)
  show ?thesis
    unfolding s_def [symmetric]
    using remote_cancel_rejects_verify [OF a(1) a(2) a(3), of 0 example_env "[]"]
      remote_cancel_rejects_verify [OF a(1) b(1) b(2), of 0 example_env "[]"
        "Some ''@bob:example.org''" "Some ''DEV1''" None True] a(4,5,6) b(3)
    by (simp add: c)
qed

section \<open>Batch key verification: the outcome\<close>

text \<open>
  Claim C7, amended. Provided that no call of the verifier and no call of
  \<open>setDeviceVerified\<close> fails, \<open>_verifyKeys\<close> fails with
  \<open>No devices could be verified\<close> if and only if no key identifier resolves to a
  stored device or to the cross-signing identity of the user; and when at least one
  resolves it succeeds, having called the verifier on each resolved key, warned about
  each other key, and then marked every recorded device id verified, one call each, in
  order.
\<close>

theorem verifyKeys_outcome:
  assumes "\<forall>entry \<in> set keys. \<forall>d. resolveDevice kenv uid (fst entry) = Some d \<longrightarrow>
             verifier (fst entry) d (snd entry) = None"
    and "\<forall>d \<in> set (recorded kenv uid keys). setDeviceVerified kenv uid d = None"
  shows "(fst (verifyKeys kenv uid keys verifier) = Some (Error ''No devices could be verified''))
           = (\<forall>entry \<in> set keys. resolveDevice kenv uid (fst entry) = None)
    \<and> ((\<exists>entry \<in> set keys. resolveDevice kenv uid (fst entry) \<noteq> None) \<longrightarrow>
         verifyKeys kenv uid keys verifier =
           (None, map (entryEffect kenv uid) keys
                  @ map (DeviceVerified uid) (recorded kenv uid keys)))"
proof -
  have v: "verifyEntries kenv verifier uid keys ([], []) =
             (None, recorded kenv uid keys, map (entryEffect kenv uid) keys)"
    using verifyEntries_pass [OF assms(1), of "[]" "[]"] by simp
  have r: "(recorded kenv uid keys = []) = (\<forall>entry \<in> set keys. resolveDevice kenv uid (fst entry) = None)"
    by (auto simp add: recorded_def filter_empty_conv)
  show ?thesis
  proof (cases "recorded kenv uid keys = []")
    case True
    with v r show ?thesis by (simp add: verifyKeys_def)
  next
    case False
    with v r markVerified_pass [OF assms(2)] show ?thesis by (simp add: verifyKeys_def)
  qed
qed

text \<open>
  The example of the specification, with a second key that does not resolve; and a
  batch in which no key resolves.
\<close>

theorem verifyKeys_outcome_witness:
  "verifyKeys example_keys_env ''@bob:example.org''
     [(''ed25519:DEV1'', ''keyInfoA''), (''ed25519:DEV2'', ''keyInfoB'')] accepting =
     (None,
      [VerifierCalled ''ed25519:DEV1''
         (DeviceInfo [(''ed25519:DEV1'', Some ''base64key'')] (Some ''DEV1'')) ''keyInfoA'',
       LoggerWarn (Some ''DEV2''),
       DeviceVerified ''@bob:example.org'' (Some ''DEV1'')])
   \<and> fst (verifyKeys example_keys_env ''@bob:example.org'' [(''ed25519:DEV2'', ''keyInfoB'')]
           accepting) = Some (Error ''No devices could be verified'')"
proof -
  have a: "\<forall>entry \<in> set [(''ed25519:DEV1'', ''keyInfoA''), (''ed25519:DEV2'', ''keyInfoB'')].
             \<forall>d. resolveDevice example_keys_env ''@bob:example.org'' (fst entry) = Some d \<longrightarrow>
               accepting (fst entry) d (snd entry) = None"
    "\<forall>entry \<in> set [(''ed25519:DEV2'', ''keyInfoB'')].
             \<forall>d. resolveDevice example_keys_env ''@bob:example.org'' (fst entry) = Some d \<longrightarrow>
               accepting (fst entry) d (snd entry) = None"
    by (simp_all add: accepting_def)
  have b: "\<forall>d \<in> set (recorded example_keys_env ''@bob:example.org''
                [(''ed25519:DEV1'', ''keyInfoA''), (''ed25519:DEV2'', ''keyInfoB'')]).
             setDeviceVerified example_keys_env ''@bob:example.org'' d = None"
    "\<forall>d \<in> set (recorded example_keys_env ''@bob:example.org'' [(''ed25519:DEV2'', ''keyInfoB'')]).
             setDeviceVerified example_keys_env ''@bob:example.org'' d = None"
    by (simp_all add: example_keys_env_def)
  have c: "resolveDevice example_keys_env ''@bob:example.org'' ''ed25519:DEV1'' =
             Some (DeviceInfo [(''ed25519:DEV1'', Some ''base64key'')] (Some ''DEV1''))"
    "resolveDevice example_keys_env ''@bob:example.org'' ''ed25519:DEV2'' = None"
    "deviceIdOf ''ed25519:DEV1'' = Some ''DEV1''" "deviceIdOf ''ed25519:DEV2'' = Some ''DEV2''"
    by (simp_all add: resolveDevice_def deviceIdOf_def example_keys_env_def Let_def)
  show ?thesis
    using verifyKeys_outcome [OF a(1) b(1)] verifyKeys_outcome [OF a(2) b(2)]
    by (simp add: c entryEffect_def recorded_def)
qed

text \<open>
  The claim C7 as stated fails when the verifier throws: with one key that resolves and
  is refused, no key was verified and the failure is the error of the verifier, not
  \<open>No devices could be verified\<close>; with a first key verified and a second one
  refused the operation fails although one key was verified, and no device is marked.
\<close>

theorem verifyKeys_counterexample:
  "verifyKeys example_keys_env ''@bob:example.org'' [(''ed25519:DEV1'', ''bad'')] mismatching =
     (Some (Error ''Key mismatch''),
      [VerifierCalled ''ed25519:DEV1''
         (DeviceInfo [(''ed25519:DEV1'', Some ''base64key'')] (Some ''DEV1'')) ''bad''])
   \<and> verifyKeys example_keys_env ''@bob:example.org''
       [(''ed25519:DEV1'', ''good''), (''ed25519:MASTER'', ''bad'')] mismatching =
     (Some (Error ''Key mismatch''),
      [VerifierCalled ''ed25519:DEV1''
         (DeviceInfo [(''ed25519:DEV1'', Some ''base64key'')] (Some ''DEV1'')) ''good'',
       VerifierCalled ''ed25519:MASTER''
         (DeviceInfo [(''ed25519:MASTER'', Some ''MASTER'')] (Some ''MASTER'')) ''bad''])"
  by (simp add: keys_defs)

section \<open>Waiting on an ended transaction\<close>

text \<open>
  Claim C8. Over the calls of a transaction whose \<open>_waitForEvent\<close> calls, this one
  included, come from the started hook: on a transaction that is done or cancelled
  \<open>_waitForEvent\<close> returns a new promise that is already rejected with
  \<open>Verification is already done\<close> and changes nothing else, so no expectation is
  recorded; otherwise it records the expected type and both waiter callbacks, and
  returns a new pending promise.
\<close>

theorem waitForEvent_on_ended:
  assumes "waits_in_hook env (ops @ [WaitForEvent t]) (new_verification u d st rq)"
    and "s = run env ops (new_verification u d st rq)"
  shows "(done_flag s \<or> cancelled s \<longrightarrow>
            waitForEvent t s =
              (length (promises s),
               s\<lparr>promises := promises s @ [Rejected (Error ''Verification is already done'')]\<rparr>))
       \<and> (\<not> (done_flag s \<or> cancelled s) \<longrightarrow>
            waitForEvent t s =
              (length (promises s),
               s\<lparr>expectedEvent := Some t, resolveEvent := Some (length (promises s)),
                 rejectEvent := Some (length (promises s)),
                 promises := promises s @ [Pending]\<rparr>))"
proof -
  from assms have w: "waits_in_hook env ops (new_verification u d st rq)" and st: "started s"
    by (simp_all add: waits_in_hook_append)
  have inv: "hook_inv s"
    unfolding assms(2) using w by (intro hook_inv_run hook_inv_new)
  have "done_flag s" if "cancelled s"
    using hook_inv_ended(3) [OF inv that] st by blast
  then show ?thesis
    by (auto simp add: waitForEvent_def newPromise_def Let_def)
qed

text \<open>
  In the hook of a transaction cancelled after \<open>verify()\<close>, and in the hook of a live
  one.
\<close>

theorem waitForEvent_on_ended_witness:
  "cancelled (run example_env [Verify, Cancel (Error ''user'')] example_verification)
   \<and> waitForEvent ''m.key.verification.key''
        (run example_env [Verify, Cancel (Error ''user'')] example_verification)
      = (1, (run example_env [Verify, Cancel (Error ''user'')] example_verification)
             \<lparr>promises := [Rejected (Error ''user''),
                            Rejected (Error ''Verification is already done'')]\<rparr>)
   \<and> expectedEvent (snd (waitForEvent ''m.key.verification.key''
        (run example_env [Verify, Cancel (Error ''user'')] example_verification))) = None
   \<and> waitForEvent ''m.key.verification.key'' (run example_env [Verify] example_verification)
      = (1, (run example_env [Verify] example_verification)
             \<lparr>expectedEvent := Some ''m.key.verification.key'', resolveEvent := Some 1,
               rejectEvent := Some 1, promises := [Pending, Pending]\<rparr>)"
proof -
  define s where "s = run example_env [Verify, Cancel (Error ''user'')] example_verification"
  define s' where "s' = run example_env [Verify] example_verification"
  have a: "waits_in_hook example_env
             ([Verify, Cancel (Error ''user'')] @ [WaitForEvent ''m.key.verification.key''])
             (new_verification (Some ''@bob:example.org'') (Some ''DEV1'') None True)"
    "waits_in_hook example_env ([Verify] @ [WaitForEvent ''m.key.verification.key''])
             (new_verification (Some ''@bob:example.org'') (Some ''DEV1'') None True)"
    by (simp_all add: eval_defs2)
  have b: "s = run example_env [Verify, Cancel (Error ''user'')]
             (new_verification (Some ''@bob:example.org'') (Some ''DEV1'') None True)"
    "s' = run example_env [Verify]
             (new_verification (Some ''@bob:example.org'') (Some ''DEV1'') None True)"
    by (simp_all add: s_def s'_def example_verification_def)
  have c: "cancelled s" "done_flag s" "\<not> done_flag s'" "\<not> cancelled s'"
    "promises s = [Rejected (Error ''user'')]" "promises s' = [Pending]"
    "expectedEvent s = None"
    by (simp_all add: s_def s'_def eval_defs2)
  show ?thesis
    unfolding s_def [symmetric] s'_def [symmetric]
    using waitForEvent_on_ended [OF a(1) b(1)] waitForEvent_on_ended [OF a(2) b(2)] c
    by simp
qed

section \<open>Switching the start event\<close>

text \<open>
  Claim C9. \<open>switchStartEvent(event)\<close>: when \<open>canSwitchStartEvent\<close> answers false
  nothing changes, whether a waiter is live or not; when it answers true and a waiter is
  live, that waiter is rejected with a \<open>SwitchStartEventError\<close> carrying the new event
  and \<open>_rejectEvent\<close> is cleared, the start event staying as it was; when it answers
  true and no waiter is live, the start event is replaced.
\<close>

theorem switchStartEvent_cases:
  "(\<not> canSwitchStartEvent env ev \<longrightarrow> switchStartEvent env ev s = s) \<and>
   (canSwitchStartEvent env ev \<and> rejectEvent s = Some w \<and> w < length (promises s)
      \<and> promises s ! w = Pending \<longrightarrow>
      switchStartEvent env ev s =
        s\<lparr>rejectEvent := None,
          promises := (promises s)[w := Rejected (SwitchStartEventError ev)]\<rparr>) \<and>
   (canSwitchStartEvent env ev \<and> rejectEvent s = None \<longrightarrow>
      switchStartEvent env ev s = s\<lparr>startEvent := Some ev\<rparr>)"
  by (simp add: switchStartEvent_def settle_def)

text \<open>
  With a live waiter and switching disabled, with a live waiter and switching enabled,
  and with no waiter and switching enabled.
\<close>

theorem switchStartEvent_cases_witness:
  "switchStartEvent example_env start_event
      (snd (waitForEvent ''m.key.verification.key'' example_verification))
     = snd (waitForEvent ''m.key.verification.key'' example_verification)
   \<and> promises (switchStartEvent switching_env start_event
      (snd (waitForEvent ''m.key.verification.key'' example_verification)))
     = [Rejected (SwitchStartEventError start_event)]
   \<and> startEvent (switchStartEvent switching_env start_event
      (snd (waitForEvent ''m.key.verification.key'' example_verification))) = None
   \<and> startEvent (switchStartEvent switching_env start_event example_verification)
     = Some start_event"
proof -
  define s where "s = snd (waitForEvent ''m.key.verification.key'' example_verification)"
  have a: "\<not> canSwitchStartEvent example_env start_event"
    "canSwitchStartEvent switching_env start_event"
    "rejectEvent s = Some 0 \<and> 0 < length (promises s) \<and> promises s ! 0 = Pending"
    "rejectEvent example_verification = None" "promises s = [Pending]" "startEvent s = None"
    by (simp_all add: s_def eval_defs2)
  show ?thesis
    unfolding s_def [symmetric]
    using switchStartEvent_cases [of example_env start_event s 0]
      switchStartEvent_cases [of switching_env start_event s 0]
      switchStartEvent_cases [of switching_env start_event example_verification 0] a
    by simp
qed

section \<open>The cancelled flag\<close>

text \<open>
  Claim C10. Handling an inbound \<open>m.key.verification.cancel\<close> never changes the
  \<open>cancelled\<close> flag: after it has rejected the pending \<open>verify()\<close> promise the
  transaction is done and \<open>cancelled\<close> is still false. The flag is set only on the
  path through \<open>cancel()\<close>: a call of \<open>cancel\<close>, the timeout callback, or the
  unexpected-event branch of \<open>handleEvent\<close>, which both call it.
\<close>

theorem remote_cancel_leaves_cancelled:
  "(getType e = ''m.key.verification.cancel'' \<longrightarrow>
      cancelled (snd (handleEvent env e s)) = cancelled s)
   \<and> (getType e = ''m.key.verification.cancel'' \<and> \<not> done_flag s \<and> \<not> cancelled s
        \<and> expectedEvent s \<noteq> Some ''m.key.verification.cancel'' \<and> reject s \<noteq> None \<longrightarrow>
      done_flag (snd (handleEvent env e s)) \<and> \<not> cancelled (snd (handleEvent env e s)))
   \<and> (\<not> cancelled s \<and> cancelled (step env x s) \<longrightarrow>
        (\<exists>c. x = Cancel c) \<or> x = TimeoutFires
        \<or> (\<exists>ev. x = HandleEvent ev \<and> \<not> done_flag s \<and> truthy (expectedEvent s)
                \<and> getType ev \<noteq> ''m.key.verification.cancel''
                \<and> expectedEvent s \<noteq> Some (getType ev)))"
proof (intro conjI impI)
  assume "getType e = ''m.key.verification.cancel''"
  then show "cancelled (snd (handleEvent env e s)) = cancelled s"
    by (simp add: handleEvent_cancelled)
next
  assume a: "getType e = ''m.key.verification.cancel'' \<and> \<not> done_flag s \<and> \<not> cancelled s
        \<and> expectedEvent s \<noteq> Some ''m.key.verification.cancel'' \<and> reject s \<noteq> None"
  then show "done_flag (snd (handleEvent env e s))"
    by (auto simp add: handleEvent_def Let_def)
  from a show "\<not> cancelled (snd (handleEvent env e s))"
    by (simp add: handleEvent_cancelled)
next
  assume a: "\<not> cancelled s \<and> cancelled (step env x s)"
  show "(\<exists>c. x = Cancel c) \<or> x = TimeoutFires
        \<or> (\<exists>ev. x = HandleEvent ev \<and> \<not> done_flag s \<and> truthy (expectedEvent s)
                \<and> getType ev \<noteq> ''m.key.verification.cancel''
                \<and> expectedEvent s \<noteq> Some (getType ev))"
  proof (cases x)
    case (HandleEvent ev)
    with a show ?thesis
      by (auto simp add: handleEvent_cancelled split: if_splits)
  qed (use a in \<open>simp_all add: step_cancelled_other\<close>)
qed

text \<open>
  At a concrete transaction, after \<open>verify()\<close> and before it.
\<close>

theorem remote_cancel_leaves_cancelled_witness:
  "done_flag (snd (handleEvent example_env remote_cancel
       (snd (verify example_env example_verification))))
   \<and> \<not> cancelled (snd (handleEvent example_env remote_cancel
       (snd (verify example_env example_verification))))
   \<and> \<not> cancelled (step example_env (HandleEvent remote_cancel) example_verification)"
proof -
  define s where "s = snd (verify example_env example_verification)"
  have a: "getType remote_cancel = ''m.key.verification.cancel'' \<and> \<not> done_flag s
     \<and> \<not> cancelled s \<and> expectedEvent s \<noteq> Some ''m.key.verification.cancel''
     \<and> reject s \<noteq> None"
    by (simp add: s_def eval_defs2)
  have b: "\<not> cancelled example_verification"
    by (simp add: example_verification_def new_verification_def)
  have c: "getType remote_cancel = ''m.key.verification.cancel''"
    by (simp add: remote_cancel_def)
  show ?thesis
    unfolding s_def [symmetric]
    using remote_cancel_leaves_cancelled [of remote_cancel example_env s "HandleEvent remote_cancel"]
      remote_cancel_leaves_cancelled [of remote_cancel example_env example_verification
        "HandleEvent remote_cancel"] a b c
    by auto
qed

section \<open>Live handles name pending promises\<close>

text \<open>
  The handles stay consistent under every operation, so on every transaction reached
  from a new one a live waiter is pending, and so is the \<open>verify()\<close> promise while
  \<open>_reject\<close> is set and the transaction is not done.
\<close>

lemma handles_wf_new: "handles_wf (new_verification u d st rq)"
  by (simp add: handles_wf_def new_verification_def)

lemma handles_wf_update [simp]:
  "handles_wf (s\<lparr>trace := tr\<rparr>) = handles_wf s"
  "handles_wf (s\<lparr>cancelled := c\<rparr>) = handles_wf s"
  "handles_wf (s\<lparr>transactionTimeoutTimer := tm\<rparr>) = handles_wf s"
  "handles_wf (s\<lparr>timeouts := n\<rparr>) = handles_wf s"
  "handles_wf (s\<lparr>started := b\<rparr>) = handles_wf s"
  "handles_wf (s\<lparr>startEvent := ev\<rparr>) = handles_wf s"
  "handles_wf (s\<lparr>promise := q\<rparr>) = handles_wf s"
  "handles_wf (s\<lparr>expectedEvent := x\<rparr>) = handles_wf s"
  by (simp_all add: handles_wf_def cong: option.case_cong)

lemma handles_wf_done: "handles_wf s \<Longrightarrow> handles_wf (s\<lparr>done_flag := True\<rparr>)"
  by (simp add: handles_wf_def split: option.splits)

lemma handles_wf_append:
  "ps \<noteq> [] \<Longrightarrow> butlast ps = promises s \<Longrightarrow> handles_wf s \<Longrightarrow> handles_wf (s\<lparr>promises := ps\<rparr>)"
  by (cases ps rule: rev_cases) (auto simp add: handles_wf_def nth_append split: option.splits)

lemma handles_wf_primitives [simp]:
  "handles_wf (emit n e s) = handles_wf s"
  "handles_wf (send t c s) = handles_wf s"
  "handles_wf (endTimer s) = handles_wf s"
  "handles_wf (resetTimer s) = handles_wf s"
  by (simp_all add: emit_def send_def endTimer_def resetTimer_def)

lemma primitive_fields [simp]:
  "promises (emit n e s) = promises s" "reject (emit n e s) = reject s"
  "promise (emit n e s) = promise s" "done_flag (emit n e s) = done_flag s"
  "promises (send t c s) = promises s" "reject (send t c s) = reject s"
  "promise (send t c s) = promise s" "done_flag (send t c s) = done_flag s"
  "promises (endTimer s) = promises s" "reject (endTimer s) = reject s"
  "promise (endTimer s) = promise s" "done_flag (endTimer s) = done_flag s"
  "resolve (endTimer s) = resolve s"
  "promises (resetTimer s) = promises s" "resolveEvent (resetTimer s) = resolveEvent s"
  "rejectEvent (resetTimer s) = rejectEvent s" "reject (resetTimer s) = reject s"
  by (simp_all add: emit_def send_def endTimer_def resetTimer_def)

lemma handles_wf_clear:
  "handles_wf s \<Longrightarrow> handles_wf (s\<lparr>rejectEvent := None\<rparr>)"
  "handles_wf s \<Longrightarrow> handles_wf (s\<lparr>reject := None\<rparr>)"
  by (auto simp add: handles_wf_def split: option.splits)

lemma handles_wf_settle_waiter:
  assumes "handles_wf s" and "rejectEvent s = None"
    and "reject s \<noteq> Some w" and "resolve s \<noteq> Some w"
  shows "handles_wf (settle w v s)"
  using assms by (auto simp add: handles_wf_def settle_def nth_list_update split: option.splits)

lemma handles_wf_settle_done:
  "handles_wf s \<Longrightarrow> done_flag s \<Longrightarrow> reject s = Some p \<or> resolve s = Some p \<Longrightarrow>
   handles_wf (settle p v s)"
  by (auto simp add: handles_wf_def settle_def nth_list_update split: option.splits)

lemma handles_wf_call_reject:
  "handles_wf s \<Longrightarrow> reject s = Some p \<or> resolve s = Some p \<Longrightarrow> handles_wf (call_reject p e s)"
  unfolding call_reject_def endTimer_def
  by (rule handles_wf_settle_done) (simp_all add: handles_wf_done)

lemma handles_wf_call_resolve:
  "handles_wf s \<Longrightarrow> reject s = Some p \<or> resolve s = Some p \<Longrightarrow> handles_wf (call_resolve p s)"
  unfolding call_resolve_def endTimer_def
  by (rule handles_wf_settle_done) (simp_all add: handles_wf_done)

lemma handles_wf_cancel: "handles_wf s \<Longrightarrow> handles_wf (cancel env e s)"
  by (simp add: cancel_def Let_def newPromise_def handles_wf_call_reject handles_wf_append
      split: option.split prod.split)

lemma handles_wf_waitForEvent: "handles_wf s \<Longrightarrow> handles_wf (snd (waitForEvent t s))"
  by (auto simp add: waitForEvent_def newPromise_def Let_def handles_wf_def nth_append
      split: option.splits)

lemma handles_wf_verify: "handles_wf s \<Longrightarrow> handles_wf (snd (verify env s))"
  by (auto simp add: verify_def Let_def resetTimer_def handles_wf_def nth_append
      split: option.splits)

lemma handles_wf_switchStartEvent: "handles_wf s \<Longrightarrow> handles_wf (switchStartEvent env ev s)"
proof (cases "rejectEvent s")
  case None
  then show "handles_wf s \<Longrightarrow> ?thesis" by (simp add: switchStartEvent_def)
next
  case (Some w)
  assume wf: "handles_wf s"
  with Some have "reject s \<noteq> Some w" "resolve s \<noteq> Some w"
    by (simp_all add: handles_wf_def)
  with wf have "handles_wf (settle w (Rejected (SwitchStartEventError ev)) (s\<lparr>rejectEvent := None\<rparr>))"
    by (intro handles_wf_settle_waiter handles_wf_clear) simp_all
  with Some wf show ?thesis by (simp add: switchStartEvent_def)
qed

lemma handles_wf_done_transaction: "handles_wf s \<Longrightarrow> handles_wf (snd (done_transaction env s))"
  by (simp add: done_transaction_def Let_def handles_wf_call_resolve split: option.split)

lemma handles_wf_handleEvent:
  assumes wf: "handles_wf s"
  shows "handles_wf (snd (handleEvent env e s))"
proof -
  have a: "handles_wf (settle w v (resetTimer (s\<lparr>expectedEvent := None, rejectEvent := None\<rparr>)))"
    if "resolveEvent s = Some w" for w v
  proof -
    from wf that have "reject s \<noteq> Some w" "resolve s \<noteq> Some w"
      by (simp_all add: handles_wf_def)
    with wf show ?thesis
      by (intro handles_wf_settle_waiter) (simp_all add: resetTimer_def handles_wf_clear)
  qed
  have b: "handles_wf (call_reject p v (s\<lparr>reject := None\<rparr>))" if "reject s = Some p" for p v
  proof -
    have "handles_wf (s\<lparr>reject := None, done_flag := True\<rparr>)"
      using wf by (auto simp add: handles_wf_def split: option.splits)
    moreover have "handles_wf (settle p (Rejected v) t)"
      if "handles_wf t" "reject t = None" "rejectEvent t \<noteq> Some p" "resolveEvent t \<noteq> Some p" for t
      using that by (auto simp add: handles_wf_def settle_def nth_list_update split: option.splits)
    moreover from wf that have "rejectEvent s \<noteq> Some p" "resolveEvent s \<noteq> Some p"
      by (auto simp add: handles_wf_def split: option.splits)
    ultimately show ?thesis by (simp add: call_reject_def endTimer_def)
  qed
  have c: "handles_wf (settle w v (s\<lparr>expectedEvent := None, rejectEvent := None\<rparr>))"
    if "rejectEvent s = Some w" for w v
  proof -
    from wf that have "reject s \<noteq> Some w" "resolve s \<noteq> Some w"
      by (simp_all add: handles_wf_def)
    with wf show ?thesis
      by (intro handles_wf_settle_waiter) (simp_all add: handles_wf_clear)
  qed
  have d: "handles_wf (s\<lparr>expectedEvent := None, rejectEvent := None\<rparr>)"
    using wf by (intro handles_wf_clear) simp
  show ?thesis
    using wf by (simp add: handleEvent_def Let_def a b c d handles_wf_cancel split: option.split)
qed

lemma handles_wf_step: "handles_wf s \<Longrightarrow> handles_wf (step env x s)"
  by (cases x)
    (simp_all add: handles_wf_waitForEvent handles_wf_switchStartEvent handles_wf_handleEvent
      handles_wf_verify handles_wf_done_transaction handles_wf_cancel timeoutCallback_def)

lemma handles_wf_run: "handles_wf s \<Longrightarrow> handles_wf (run env ops s)"
  by (induction ops arbitrary: s) (simp_all add: handles_wf_step)

lemma live_handles_pending:
  assumes "s = run env ops (new_verification u d st rq)"
  shows "rejectEvent s = Some w \<Longrightarrow> w < length (promises s) \<and> promises s ! w = Pending"
    and "reject s = Some p \<Longrightarrow> \<not> done_flag s \<Longrightarrow> p < length (promises s) \<and> promises s ! p = Pending"
proof -
  have "handles_wf s" unfolding assms by (rule handles_wf_run) (rule handles_wf_new)
  then show "rejectEvent s = Some w \<Longrightarrow> w < length (promises s) \<and> promises s ! w = Pending"
    and "reject s = Some p \<Longrightarrow> \<not> done_flag s \<Longrightarrow> p < length (promises s) \<and> promises s ! p = Pending"
    by (simp_all add: handles_wf_def)
qed

section \<open>Once the promise has settled\<close>

text \<open>
  What the guards on \<open>_done\<close> give: a \<open>cancel()\<close> that finds a promise and a live
  \<open>_reject\<close> sets \<open>_done\<close>; a \<open>cancel()\<close> on a done transaction only ends the timer,
  so a second \<open>cancel()\<close> after one that set \<open>_done\<close> changes nothing; on a done
  transaction \<open>handleEvent\<close> changes nothing and \<open>_waitForEvent\<close> returns a rejected
  promise without recording the expectation.
\<close>

lemma cancel_when_done: "done_flag s \<Longrightarrow> cancel env e s = endTimer s"
  by (simp add: cancel_def Let_def)

lemma cancel_after_verify_done:
  "promise s \<noteq> None \<Longrightarrow> reject s \<noteq> None \<Longrightarrow> done_flag (cancel env e s)"
  by (auto simp add: cancel_def Let_def split: option.split prod.split)

lemma cancel_timer: "transactionTimeoutTimer (cancel env e s) = None"
  by (simp add: cancel_def Let_def endTimer_def send_def emit_def newPromise_def
      split: option.split prod.split)

lemma cancel_twice_when_done:
  "done_flag (cancel env e s) \<Longrightarrow> cancel env e' (cancel env e s) = cancel env e s"
  using cancel_timer [of env e s] by (simp add: cancel_when_done endTimer_def)

lemma handleEvent_when_done: "done_flag s \<Longrightarrow> handleEvent env e s = (None, s)"
  by (simp add: handleEvent_def)

lemma waitForEvent_when_done:
  "done_flag s \<Longrightarrow>
   waitForEvent t s =
     (length (promises s),
      s\<lparr>promises := promises s @ [Rejected (Error ''Verification is already done'')]\<rparr>)"
  by (simp add: waitForEvent_def newPromise_def)

section \<open>The cause that a cancellation forwards\<close>

text \<open>
  A cancellation event of a third sender without code and reason: the message sent
  carries the defaults, and so does the event that is emitted and that the promise is
  rejected with, since the defaults are written into the event's own content.
\<close>

lemma cancel_forwards_filled_event:
  "trace (cancel example_env
      (MatrixEvent (Event ''m.key.verification.cancel'' (Some ''@carol:example.org'')
         (Content None None (Some ''bye'')))) example_verification) =
     [ChannelSend ''m.key.verification.cancel''
        (Content (Some ''m.unknown'') (Some ''bye'') (Some ''bye'')),
      Emit ''cancel''
        (MatrixEvent (Event ''m.key.verification.cancel'' (Some ''@carol:example.org'')
           (Content (Some ''m.unknown'') (Some ''bye'') (Some ''bye''))))]
   \<and> promises (cancel example_env
      (MatrixEvent (Event ''m.key.verification.cancel'' (Some ''@carol:example.org'')
         (Content None None (Some ''bye'')))) example_verification) =
     [Rejected (MatrixEvent (Event ''m.key.verification.cancel'' (Some ''@carol:example.org'')
        (Content (Some ''m.unknown'') (Some ''bye'') (Some ''bye''))))]"
  by (simp add: eval_defs)

end
